theory Spec2Isabelle
  imports Main "HOL-Library.Word" "HOL-Library.Monad_Syntax"
begin

section \<open>dbflib: dynamically linked binary files\<close>

text \<open>
  A shallow embedding of \<^verbatim>\<open>src/lib/dbflib.hpp\<close>. Buffers are lists of bytes, the
  fixed-width integers of the source are words, and \<^verbatim>\<open>size_t\<close> is a 64-bit word.
  The header is not a separate object in the source: \<^verbatim>\<open>Header()\<close> and the reader's
  \<^verbatim>\<open>file\<close> are \<^verbatim>\<open>reinterpret_cast\<close>s of the first bytes of the buffer. The model
  keeps that: header fields are loaded from and stored to the byte list at the offsets
  the struct layout gives them, in little-endian byte order.
  An access outside the storage is undefined behaviour in C++; the model returns the
  error \<open>MemFault\<close> there, so that it is a visible outcome.
\<close>

subsection \<open>Bytes and little-endian memory access\<close>

type_synonym byte = "8 word"

primrec le_bytes :: "nat \<Rightarrow> nat \<Rightarrow> byte list" where
  "le_bytes 0 v = []"
| "le_bytes (Suc k) v = of_nat (v mod 256) # le_bytes k (v div 256)"

primrec le_val :: "byte list \<Rightarrow> nat" where
  "le_val [] = 0"
| "le_val (b # bs) = unat b + 256 * le_val bs"

definition load :: "nat \<Rightarrow> byte list \<Rightarrow> nat \<Rightarrow> nat option" where
  "load n mem off =
     (if off + n \<le> length mem then Some (le_val (take n (drop off mem))) else None)"

definition store :: "byte list \<Rightarrow> nat \<Rightarrow> byte list \<Rightarrow> byte list option" where
  "store mem off bs =
     (if off + length bs \<le> length mem
      then Some (take off mem @ bs @ drop (off + length bs) mem) else None)"

definition load_u8 :: "byte list \<Rightarrow> nat \<Rightarrow> 8 word option" where
  "load_u8 mem off = map_option of_nat (load 1 mem off)"

definition load_u16 :: "byte list \<Rightarrow> nat \<Rightarrow> 16 word option" where
  "load_u16 mem off = map_option of_nat (load 2 mem off)"

definition load_u32 :: "byte list \<Rightarrow> nat \<Rightarrow> 32 word option" where
  "load_u32 mem off = map_option of_nat (load 4 mem off)"

definition load_u64 :: "byte list \<Rightarrow> nat \<Rightarrow> 64 word option" where
  "load_u64 mem off = map_option of_nat (load 8 mem off)"

definition store_u8 :: "byte list \<Rightarrow> nat \<Rightarrow> 8 word \<Rightarrow> byte list option" where
  "store_u8 mem off w = store mem off (le_bytes 1 (unat w))"

definition store_u16 :: "byte list \<Rightarrow> nat \<Rightarrow> 16 word \<Rightarrow> byte list option" where
  "store_u16 mem off w = store mem off (le_bytes 2 (unat w))"

definition store_u32 :: "byte list \<Rightarrow> nat \<Rightarrow> 32 word \<Rightarrow> byte list option" where
  "store_u32 mem off w = store mem off (le_bytes 4 (unat w))"

definition store_u64 :: "byte list \<Rightarrow> nat \<Rightarrow> 64 word \<Rightarrow> byte list option" where
  "store_u64 mem off w = store mem off (le_bytes 8 (unat w))"

subsection \<open>Constants and the header layout\<close>

definition DB_FILE_MAGIC :: "64 word" where
  "DB_FILE_MAGIC = 0x0d0a46424424"

definition DB_FILE_MIN_VERSION :: "8 word" where
  "DB_FILE_MIN_VERSION = 0x10"

definition DB_FILE_CURR_VERSION :: "8 word" where
  "DB_FILE_CURR_VERSION = 0x10"

definition LINKING :: "8 word" where
  "LINKING = 0x10"

definition INT32_MAX :: "64 word" where
  "INT32_MAX = 0x7FFFFFFF"

text \<open>
  \<^verbatim>\<open>struct DB_FILE\<close>: \<open>magic\<close> (8 bytes) at offset 0, \<open>version\<close> at 8, \<open>flags\<close> at 9,
  \<open>links_count\<close> (2 bytes) at 10, \<open>links_table_offset\<close> at 12, \<open>start_offset\<close> at 16,
  \<open>data_size\<close> at 20, \<open>file_size\<close> at 24 (4 bytes each); 28 bytes in all, without padding.
\<close>

definition off_magic :: nat where "off_magic = 0"
definition off_version :: nat where "off_version = 8"
definition off_flags :: nat where "off_flags = 9"
definition off_links_count :: nat where "off_links_count = 10"
definition off_links_table_offset :: nat where "off_links_table_offset = 12"
definition off_start_offset :: nat where "off_start_offset = 16"
definition off_data_size :: nat where "off_data_size = 20"
definition off_file_size :: nat where "off_file_size = 24"
definition sizeof_DB_FILE :: nat where "sizeof_DB_FILE = 28"

text \<open>
  \<^verbatim>\<open>sizeof(size_t)\<close>. The format stores pointers in 8-byte slots (\<^verbatim>\<open>origin + 8\<close> in
  \<^verbatim>\<open>CreateLink\<close>, the \<^verbatim>\<open>void*\<close> store of the reader), so the platform is a 64-bit
  one, where \<^verbatim>\<open>size_t\<close> has 8 bytes.
\<close>

definition sizeof_size_t :: nat where "sizeof_size_t = 8"

record DB_FILE =
  magic :: "64 word"
  version :: "8 word"
  flags :: "8 word"
  links_count :: "16 word"
  links_table_offset :: "32 word"
  start_offset :: "32 word"
  data_size :: "32 word"
  file_size :: "32 word"

record DB_FILE_LINK =
  origin :: "32 word"
  destination :: "32 word"

text \<open>The header as a typed view of the first 28 bytes of a buffer.\<close>

definition header_view :: "byte list \<Rightarrow> DB_FILE option" where
  "header_view mem = do {
     m \<leftarrow> load_u64 mem off_magic;
     v \<leftarrow> load_u8 mem off_version;
     f \<leftarrow> load_u8 mem off_flags;
     lc \<leftarrow> load_u16 mem off_links_count;
     lo \<leftarrow> load_u32 mem off_links_table_offset;
     so \<leftarrow> load_u32 mem off_start_offset;
     ds \<leftarrow> load_u32 mem off_data_size;
     fs \<leftarrow> load_u32 mem off_file_size;
     Some \<lparr>magic = m, version = v, flags = f, links_count = lc, links_table_offset = lo,
            start_offset = so, data_size = ds, file_size = fs\<rparr>
   }"

text \<open>A link record in memory: \<open>origin\<close> then \<open>destination\<close>, 4 bytes each.\<close>

definition sizeof_DB_FILE_LINK :: nat where "sizeof_DB_FILE_LINK = 8"

definition link_bytes :: "DB_FILE_LINK \<Rightarrow> byte list" where
  "link_bytes l = le_bytes 4 (unat (origin l)) @ le_bytes 4 (unat (destination l))"

subsection \<open>Errors\<close>

datatype error =
    BuilderAlreadyLinked
  | FileTooBig
  | LinkAfterBlockEnd
  | InvalidBlock
  | CantOpenOutput
  | CantOpenInput
  | FileTooSmall
  | BadMagic
  | VersionTooLow
  | ReadFileTooSmall
  | StartAfterEnd
  | LinkAfterEndFile
  | MemFault

subsection \<open>DBFileBuilder\<close>

record builder =
  linked :: bool
  data :: "byte list"
  blocks :: "32 word \<rightharpoonup> 32 word"
  links :: "DB_FILE_LINK list"

text \<open>
  Every member function takes the builder and returns its result together with the
  builder it leaves behind, also when it throws: \<^verbatim>\<open>AssertNotLinked\<close> has cleared
  \<open>linked\<close> before a later check of the same call throws.
  The first argument of the mutating functions is the \<^verbatim>\<open>DEBUG\<close> macro of the build.
\<close>

definition Header :: "builder \<Rightarrow> DB_FILE option" where
  "Header b = header_view (data b)"

definition AssertNotLinked :: "bool \<Rightarrow> builder \<Rightarrow> (error + unit) \<times> builder" where
  "AssertNotLinked DEBUG b =
     (if DEBUG \<and> linked b then (Inl BuilderAlreadyLinked, b)
      else (Inr (), b\<lparr>linked := False\<rparr>))"

text \<open>
  The constructor. \<open>sz\<close> is \<^verbatim>\<open>sizeof(DBFileBuilder)\<close>, the size of the builder object
  itself, which the source passes to \<^verbatim>\<open>data.resize\<close>; it depends on the standard
  library (112 with libstdc++ on x86-64: a padded bool, two vectors of 24 bytes and an
  unordered map of 56).
\<close>

definition DBFileBuilder :: "nat \<Rightarrow> (error + unit) \<times> builder" where
  "DBFileBuilder sz =
     (let d = replicate sz (0 :: byte) in
      case store_u32 d off_start_offset (of_nat (length d)) of
        None \<Rightarrow> (Inl MemFault, \<lparr>linked = False, data = d, blocks = Map.empty, links = []\<rparr>)
      | Some d' \<Rightarrow> (Inr (), \<lparr>linked = False, data = d', blocks = Map.empty, links = []\<rparr>))"

text \<open>\<^verbatim>\<open>CreateBlock(void* buffer, size_t len)\<close>: \<open>buffer\<close> is the memory behind the pointer.\<close>

definition CreateBlock ::
  "bool \<Rightarrow> byte list \<Rightarrow> 64 word \<Rightarrow> builder \<Rightarrow> (error + 32 word) \<times> builder" where
  "CreateBlock DEBUG buffer len b =
     (case AssertNotLinked DEBUG b of
        (Inl e, b1) \<Rightarrow> (Inl e, b1)
      | (Inr _, b1) \<Rightarrow>
          let bid = (of_nat (length (data b1)) :: 64 word) in
          if len \<noteq> 0 then
            if bid + len > INT32_MAX then (Inl FileTooBig, b1)
            else if length buffer < unat len then (Inl MemFault, b1)
            else (Inr (ucast bid),
                  b1\<lparr>data := data b1 @ take (unat len) buffer,
                     blocks := (blocks b1)(ucast bid \<mapsto> ucast len)\<rparr>)
          else (Inr (ucast bid), b1))"

text \<open>\<^verbatim>\<open>std::vector::resize\<close>: truncates, or appends value-initialised bytes.\<close>

definition resize :: "byte list \<Rightarrow> nat \<Rightarrow> byte list" where
  "resize xs n = take n xs @ replicate (n - length xs) 0"

text \<open>
  \<^verbatim>\<open>CreateBlock<BlockType>(size_t len)\<close>, the in-place variant. The pointer of the
  returned pair is \<^verbatim>\<open>&data[id]\<close>, a view of the buffer at the returned id; the model
  returns the id.
\<close>

definition CreateBlockInPlace ::
  "bool \<Rightarrow> 64 word \<Rightarrow> builder \<Rightarrow> (error + 32 word) \<times> builder" where
  "CreateBlockInPlace DEBUG len b =
     (case AssertNotLinked DEBUG b of
        (Inl e, b1) \<Rightarrow> (Inl e, b1)
      | (Inr _, b1) \<Rightarrow>
          let bid = (of_nat (length (data b1)) :: 64 word) in
          if len \<noteq> 0 then
            if bid + len > INT32_MAX then (Inl FileTooBig, b1)
            else (Inr (ucast bid),
                  b1\<lparr>data := resize (data b1) (unat (bid + len)),
                     blocks := (blocks b1)(ucast bid \<mapsto> ucast len)\<rparr>)
          else (Inr (ucast bid), b1))"

text \<open>
  \<^verbatim>\<open>GetBlock\<close>: the view it returns starts at the offset \<open>id\<close> of the buffer; the model
  returns that offset.
\<close>

definition GetBlock :: "builder \<Rightarrow> 32 word \<Rightarrow> error + nat" where
  "GetBlock b bid =
     (if (ucast bid :: 64 word) > of_nat (length (data b)) then Inl InvalidBlock
      else Inr (unat bid))"

definition GetBlockSize :: "builder \<Rightarrow> 32 word \<Rightarrow> 32 word" where
  "GetBlockSize b bid = (case blocks b bid of None \<Rightarrow> 0 | Some s \<Rightarrow> s)"

definition CreateLink ::
  "bool \<Rightarrow> 32 word \<Rightarrow> 32 word \<Rightarrow> 32 word \<Rightarrow> 32 word \<Rightarrow> builder \<Rightarrow> (error + unit) \<times> builder" where
  "CreateLink DEBUG blockOrigin orig blockDestination dest b =
     (case AssertNotLinked DEBUG b of
        (Inl e, b1) \<Rightarrow> (Inl e, b1)
      | (Inr _, b1) \<Rightarrow>
          let ors = GetBlockSize b1 blockOrigin;
              dss = GetBlockSize b1 blockDestination in
          if orig + 8 > ors \<or> dest > dss then (Inl LinkAfterBlockEnd, b1)
          else (Inr (),
                b1\<lparr>links := links b1 @
                   [\<lparr>origin = blockOrigin + orig, destination = blockDestination + dest\<rparr>]\<rparr>))"

text \<open>The six header stores of \<^verbatim>\<open>Build\<close>, in the order of the source.\<close>

definition write_header ::
  "byte list \<Rightarrow> 64 word \<Rightarrow> 64 word \<Rightarrow> 64 word \<Rightarrow> byte list option" where
  "write_header d linksOffset linksSize dataSize = do {
     d1 \<leftarrow> store_u64 d off_magic DB_FILE_MAGIC;
     d2 \<leftarrow> store_u8 d1 off_version DB_FILE_CURR_VERSION;
     d3 \<leftarrow> store_u32 d2 off_links_table_offset (ucast linksOffset);
     d4 \<leftarrow> store_u16 d3 off_links_count (ucast (ucast linksSize :: 32 word));
     d5 \<leftarrow> store_u32 d4 off_data_size (ucast dataSize);
     store_u32 d5 off_file_size (of_nat (length d5))
   }"

definition Build :: "builder \<Rightarrow> (error + unit) \<times> builder" where
  "Build b =
     (if linked b then (Inr (), b)
      else
        let b1 = b\<lparr>linked := True\<rparr> in
        case load_u32 (data b1) off_start_offset of
          None \<Rightarrow> (Inl MemFault, b1)
        | Some so \<Rightarrow>
            let dataSize = (of_nat (length (data b1)) :: 64 word) - ucast so;
                linksOffset = (of_nat (length (data b1)) :: 64 word);
                len = (of_nat sizeof_DB_FILE_LINK :: 64 word) * of_nat (length (links b1)) in
            if links b1 \<noteq> [] \<and> linksOffset + len > INT32_MAX then (Inl FileTooBig, b1)
            else
              let b2 = (if links b1 \<noteq> []
                        then b1\<lparr>data := data b1 @ concat (map link_bytes (links b1))\<rparr>
                        else b1) in
              (case write_header (data b2) linksOffset (of_nat (length (links b2))) dataSize of
                 None \<Rightarrow> (Inl MemFault, b2)
               | Some d \<Rightarrow> (Inr (), b2\<lparr>data := d\<rparr>)))"

text \<open>
  \<^verbatim>\<open>WriteToFile\<close>. \<open>can_open\<close> says whether the output stream opens; the result is
  the bytes written to the file.
\<close>

definition WriteToFile :: "bool \<Rightarrow> builder \<Rightarrow> (error + byte list) \<times> builder" where
  "WriteToFile can_open b =
     (case Build b of
        (Inl e, b1) \<Rightarrow> (Inl e, b1)
      | (Inr _, b1) \<Rightarrow>
          if \<not> can_open then (Inl CantOpenOutput, b1)
          else (case load_u32 (data b1) off_file_size of
                  None \<Rightarrow> (Inl MemFault, b1)
                | Some fs \<Rightarrow>
                    if unat fs \<le> length (data b1) then (Inr (take (unat fs) (data b1)), b1)
                    else (Inl MemFault, b1)))"

subsection \<open>DBFileReader\<close>

text \<open>
  The reader works in place on the memory behind \<^verbatim>\<open>file\<close>: \<open>mem\<close> is that memory
  (all the bytes that may be accessed), \<open>base\<close> its address. Each function returns its
  result with the memory it leaves behind, also when it throws.

  The loop of \<^verbatim>\<open>ValidateAndLink\<close>. \<open>tbl\<close> is the offset of \<^verbatim>\<open>links\<close>, computed once
  before the loop; \<^verbatim>\<open>file->links_count\<close> and \<^verbatim>\<open>file->file_size\<close> are read from the
  memory at every iteration, as the stores of the loop may change them.
\<close>

function link_loop :: "64 word \<Rightarrow> nat \<Rightarrow> nat \<Rightarrow> byte list \<Rightarrow> (error + unit) \<times> byte list" where
  "link_loop base tbl i mem =
     (case load_u16 mem off_links_count of
        None \<Rightarrow> (Inl MemFault, mem)
      | Some lc \<Rightarrow>
          if i < unat lc then
            (case load_u32 mem (tbl + sizeof_DB_FILE_LINK * i) of
               None \<Rightarrow> (Inl MemFault, mem)
             | Some org \<Rightarrow>
                 (case load_u32 mem off_file_size of
                    None \<Rightarrow> (Inl MemFault, mem)
                  | Some fs \<Rightarrow>
                      if org > fs then (Inl LinkAfterEndFile, mem)
                      else
                        (case load_u32 mem (tbl + sizeof_DB_FILE_LINK * i + 4) of
                           None \<Rightarrow> (Inl MemFault, mem)
                         | Some dst \<Rightarrow>
                             if dst > fs then (Inl LinkAfterEndFile, mem)
                             else
                               (case store_u64 mem (unat org) (base + ucast dst) of
                                  None \<Rightarrow> (Inl MemFault, mem)
                                | Some mem' \<Rightarrow> link_loop base tbl (Suc i) mem'))))
          else (Inr (), mem))"
  by pat_completeness auto
termination
proof (relation "measure (\<lambda>(base, tbl, i, mem). 65536 - i)")
  show "wf (measure (\<lambda>(base, tbl, i, mem). 65536 - i))"
    by simp
next
  fix base :: "64 word" and tbl i :: nat and mem mem' :: "byte list" and lc :: "16 word"
  assume "i < unat lc"
  moreover have "unat lc < 65536"
    using unsigned_less [of lc, where ?'a = nat] by simp
  ultimately show "((base, tbl, Suc i, mem'), (base, tbl, i, mem))
      \<in> measure (\<lambda>(base, tbl, i, mem). 65536 - i)"
    by simp
qed

definition ValidateAndLink :: "64 word \<Rightarrow> 64 word \<Rightarrow> byte list \<Rightarrow> (error + unit) \<times> byte list" where
  "ValidateAndLink base len mem =
     (if len \<noteq> 0 \<and> len < of_nat (off_file_size + sizeof_size_t) then (Inl FileTooSmall, mem)
      else
        (case load_u64 mem off_magic of
           None \<Rightarrow> (Inl MemFault, mem)
         | Some m \<Rightarrow>
             if m \<noteq> DB_FILE_MAGIC then (Inl BadMagic, mem)
             else
               (case load_u8 mem off_version of
                  None \<Rightarrow> (Inl MemFault, mem)
                | Some v \<Rightarrow>
                    if v < DB_FILE_MIN_VERSION then (Inl VersionTooLow, mem)
                    else
                      (case load_u32 mem off_file_size of
                         None \<Rightarrow> (Inl MemFault, mem)
                       | Some fs \<Rightarrow>
                           if len \<noteq> 0 \<and> ucast fs > len then (Inl ReadFileTooSmall, mem)
                           else
                             (case load_u32 mem off_start_offset of
                                None \<Rightarrow> (Inl MemFault, mem)
                              | Some so \<Rightarrow>
                                  if so > fs then (Inl StartAfterEnd, mem)
                                  else if v \<ge> LINKING then
                                    (case load_u32 mem off_links_table_offset of
                                       None \<Rightarrow> (Inl MemFault, mem)
                                     | Some lto \<Rightarrow> link_loop base (unat lto) 0 mem)
                                  else (Inr (), mem))))))"

text \<open>
  The two constructors. For the one from a path, \<open>file\<close> is the content of the file
  (\<open>None\<close> when it cannot be opened) and \<open>base\<close> the address of \<^verbatim>\<open>readData\<close>.
\<close>

definition DBFileReader_path :: "64 word \<Rightarrow> byte list option \<Rightarrow> (error + unit) \<times> byte list" where
  "DBFileReader_path base file =
     (case file of
        None \<Rightarrow> (Inl CantOpenInput, [])
      | Some content \<Rightarrow> ValidateAndLink base (of_nat (length content)) content)"

definition DBFileReader_buffer :: "64 word \<Rightarrow> byte list \<Rightarrow> 64 word \<Rightarrow> (error + unit) \<times> byte list" where
  "DBFileReader_buffer base buffer len = ValidateAndLink base len buffer"

declare link_loop.simps [simp del]

subsection \<open>Link resolution as a function\<close>

text \<open>
  What the loop of the reader computes on a well-formed container: the stores of the
  addresses, one link after the other. \<open>put_link\<close> is one store, \<open>resolve\<close> all of them
  in the order of the table. \<open>slots_disjoint\<close> says that no two 8-byte slots of a list of
  links overlap.
\<close>

definition put_link :: "64 word \<Rightarrow> DB_FILE_LINK \<Rightarrow> byte list \<Rightarrow> byte list" where
  "put_link base l mem =
     take (unat (origin l)) mem @ le_bytes 8 (unat (base + ucast (destination l)))
       @ drop (unat (origin l) + 8) mem"

definition resolve :: "64 word \<Rightarrow> DB_FILE_LINK list \<Rightarrow> byte list \<Rightarrow> byte list" where
  "resolve base ls mem = fold (put_link base) ls mem"

fun slots_disjoint :: "DB_FILE_LINK list \<Rightarrow> bool" where
  "slots_disjoint [] = True"
| "slots_disjoint (l # ls) =
     ((\<forall>l' \<in> set ls. unat (origin l) + 8 \<le> unat (origin l')
                        \<or> unat (origin l') + 8 \<le> unat (origin l))
      \<and> slots_disjoint ls)"

subsection \<open>Builder sessions\<close>

text \<open>
  The builders a session of calls can reach before \<^verbatim>\<open>Build\<close>, where \<open>sz\<close> is
  \<^verbatim>\<open>sizeof(DBFileBuilder)\<close>: the constructor, then calls of \<open>CreateBlock\<close> (both
  variants) and \<open>CreateLink\<close> that return, and writes of the caller into the payload
  through the views that \<open>CreateBlock\<close> and \<open>GetBlock\<close> return. The calls stay within
  the bounds the size checks are written for: a block length is at most
  \<^verbatim>\<open>INT32_MAX\<close>, the 8 bytes of a link's slot end inside the origin block without
  wrap-around, and the destination block id is an offset of the buffer.
\<close>

inductive session :: "nat \<Rightarrow> builder \<Rightarrow> bool" for sz :: nat where
  session_new:
    "DBFileBuilder sz = (Inr (), b) \<Longrightarrow> session sz b"
| session_block:
    "session sz b \<Longrightarrow> len \<le> INT32_MAX \<Longrightarrow>
     CreateBlock DEBUG buffer len b = (Inr bid, b') \<Longrightarrow> session sz b'"
| session_block_in_place:
    "session sz b \<Longrightarrow> len \<le> INT32_MAX \<Longrightarrow>
     CreateBlockInPlace DEBUG len b = (Inr bid, b') \<Longrightarrow> session sz b'"
| session_write:
    "session sz b \<Longrightarrow> sz \<le> off \<Longrightarrow> store (data b) off bs = Some d \<Longrightarrow>
     session sz (b\<lparr>data := d\<rparr>)"
| session_link:
    "session sz b \<Longrightarrow> unat orig + 8 \<le> unat (GetBlockSize b blockOrigin) \<Longrightarrow>
     unat blockDestination \<le> length (data b) \<Longrightarrow>
     CreateLink DEBUG blockOrigin orig blockDestination dest b = (Inr (), b') \<Longrightarrow>
     session sz b'"

subsection \<open>Concrete builders and files\<close>

text \<open>The bytes of a header, field by field; used to write files down by hand.\<close>

definition DB_FILE_bytes :: "DB_FILE \<Rightarrow> byte list" where
  "DB_FILE_bytes h =
     le_bytes 8 (unat (magic h)) @ le_bytes 1 (unat (version h)) @ le_bytes 1 (unat (flags h)) @
     le_bytes 2 (unat (links_count h)) @ le_bytes 4 (unat (links_table_offset h)) @
     le_bytes 4 (unat (start_offset h)) @ le_bytes 4 (unat (data_size h)) @
     le_bytes 4 (unat (file_size h))"

text \<open>A fresh builder of a build where \<^verbatim>\<open>sizeof(DBFileBuilder)\<close> is 112.\<close>

definition builder0 :: builder where
  "builder0 = snd (DBFileBuilder 112)"

text \<open>The same builder after \<^verbatim>\<open>CreateBlock<void>(16)\<close>: one block of 16 bytes, with id 112.\<close>

definition builder16 :: builder where
  "builder16 = snd (CreateBlockInPlace False 16 builder0)"

text \<open>A well-formed file of 28 bytes: a header, no payload and no link.\<close>

definition header28 :: DB_FILE where
  "header28 =
     \<lparr>magic = DB_FILE_MAGIC, version = DB_FILE_CURR_VERSION, flags = 0, links_count = 0,
      links_table_offset = 28, start_offset = 28, data_size = 0, file_size = 28\<rparr>"

definition file28 :: "byte list" where
  "file28 = DB_FILE_bytes header28"

text \<open>
  A file of 36 bytes: a header and one link record, whose origin is the end of the file.
\<close>

definition header36 :: DB_FILE where
  "header36 =
     \<lparr>magic = DB_FILE_MAGIC, version = DB_FILE_CURR_VERSION, flags = 0, links_count = 1,
      links_table_offset = 28, start_offset = 28, data_size = 0, file_size = 36\<rparr>"

definition link36 :: DB_FILE_LINK where
  "link36 = \<lparr>origin = 36, destination = 1\<rparr>"

definition file36 :: "byte list" where
  "file36 = DB_FILE_bytes header36 @ link_bytes link36"

text \<open>The header of \<open>file28\<close> with a corrupted magic, and the file of 28 bytes it makes.\<close>

definition bad_magic_header28 :: DB_FILE where
  "bad_magic_header28 = header28\<lparr>magic := 0x0d0a46424425\<rparr>"

definition bad_magic_file28 :: "byte list" where
  "bad_magic_file28 = DB_FILE_bytes bad_magic_header28"

text \<open>
  The builder with the block 112 of 16 bytes, after 65536 calls of
  \<^verbatim>\<open>CreateLink(112, 0, 112, 0)\<close>.
\<close>

definition builder_many_links :: builder where
  "builder_many_links = ((\<lambda>b. snd (CreateLink False 112 0 112 0 b)) ^^ 65536) builder16"

text \<open>The builder with the block 112, after \<^verbatim>\<open>CreateLink(112, 0, 112, 8)\<close>.\<close>

definition builder_one_link :: builder where
  "builder_one_link = snd (CreateLink False 112 0 112 8 builder16)"

text \<open>
  The builder with the block 112, after \<^verbatim>\<open>CreateLink(112, 0, 112, 0)\<close> and
  \<^verbatim>\<open>CreateLink(112, 0, 112, 8)\<close>: two links with the same slot.
\<close>

definition builder_two_links :: builder where
  "builder_two_links =
     snd (CreateLink False 112 0 112 8 (snd (CreateLink False 112 0 112 0 builder16)))"

section \<open>Properties\<close>

subsection \<open>Little-endian encoding\<close>

lemma length_le_bytes [simp]: "length (le_bytes k v) = k"
  by (induction k arbitrary: v) auto

lemma le_val_le_bytes: "le_val (le_bytes k v) = v mod 256 ^ k"
proof (induction k arbitrary: v)
  case 0
  show ?case by simp
next
  case (Suc k)
  have "unat (of_nat (v mod 256) :: byte) = v mod 256"
    by (simp add: unat_of_nat)
  then show ?case
    using Suc [of "v div 256"] by (simp add: mod_mult2_eq)
qed

lemma le_val_bound: "le_val bs < 256 ^ length bs"
proof (induction bs)
  case Nil
  show ?case by simp
next
  case (Cons b bs)
  have "unat b < 256"
    using unsigned_less [of b, where ?'a = nat] by simp
  with Cons show ?case by simp
qed

lemma le_bytes_1: "le_bytes 1 v = [of_nat (v mod 256)]"
  by (metis One_nat_def le_bytes.simps)

lemma le_bytes_numeral:
  "le_bytes (numeral k) v = of_nat (v mod 256) # le_bytes (pred_numeral k) (v div 256)"
  by (metis le_bytes.simps(2) numeral_eq_Suc)

lemmas le_bytes_eval = le_bytes_1 le_bytes_numeral le_bytes.simps(1)

subsection \<open>Loads and stores\<close>

lemma store_length: "store mem off bs = Some mem' \<Longrightarrow> length mem' = length mem"
  by (auto simp: store_def split: if_splits)

lemma store_other:
  assumes "store mem off bs = Some mem'" and "off' + n \<le> off \<or> off + length bs \<le> off'"
  shows "take n (drop off' mem') = take n (drop off' mem)"
proof -
  from assms(1) have le: "off + length bs \<le> length mem"
    and eq: "mem' = take off mem @ bs @ drop (off + length bs) mem"
    by (auto simp: store_def split: if_splits)
  from assms(2) show ?thesis
  proof
    assume a: "off' + n \<le> off"
    then have "take n (drop off' mem') = take n (drop off' (take off mem))"
      using le by (simp add: eq)
    also have "\<dots> = take n (take (off - off') (drop off' mem))"
      by (simp add: drop_take)
    also have "\<dots> = take n (drop off' mem)"
      using a by (simp add: min_def)
    finally show ?thesis .
  next
    assume "off + length bs \<le> off'"
    then show ?thesis using le by (simp add: eq)
  qed
qed

lemma store_drop:
  "store mem off bs = Some mem' \<Longrightarrow> off + length bs \<le> k \<Longrightarrow> drop k mem' = drop k mem"
  by (auto simp: store_def split: if_splits)

lemma load_store_same:
  "store mem off bs = Some mem' \<Longrightarrow> load (length bs) mem' off = Some (le_val bs)"
  by (auto simp: load_def store_def split: if_splits)

lemma load_store_other:
  assumes "store mem off bs = Some mem'" and "off' + n \<le> off \<or> off + length bs \<le> off'"
  shows "load n mem' off' = load n mem off'"
  using store_other [OF assms] store_length [OF assms(1)] by (simp add: load_def)

lemma load_store_le_bytes:
  "store mem off (le_bytes n v) = Some mem' \<Longrightarrow> load n mem' off = Some (v mod 256 ^ n)"
  using load_store_same [of mem off "le_bytes n v" mem']
  by (simp only: length_le_bytes le_val_le_bytes)

lemma load_u8_store_u8: "store_u8 mem off w = Some mem' \<Longrightarrow> load_u8 mem' off = Some w"
  using load_store_le_bytes [of mem off 1 "unat w" mem'] unsigned_less [of w, where ?'a = nat]
  by (simp add: store_u8_def load_u8_def del: le_bytes.simps)

lemma load_u16_store_u16: "store_u16 mem off w = Some mem' \<Longrightarrow> load_u16 mem' off = Some w"
  using load_store_le_bytes [of mem off 2 "unat w" mem'] unsigned_less [of w, where ?'a = nat]
  by (simp add: store_u16_def load_u16_def del: le_bytes.simps)

lemma load_u32_store_u32: "store_u32 mem off w = Some mem' \<Longrightarrow> load_u32 mem' off = Some w"
  using load_store_le_bytes [of mem off 4 "unat w" mem'] unsigned_less [of w, where ?'a = nat]
  by (simp add: store_u32_def load_u32_def del: le_bytes.simps)

lemma load_u64_store_u64: "store_u64 mem off w = Some mem' \<Longrightarrow> load_u64 mem' off = Some w"
  using load_store_le_bytes [of mem off 8 "unat w" mem'] unsigned_less [of w, where ?'a = nat]
  by (simp add: store_u64_def load_u64_def del: le_bytes.simps)

subsection \<open>The header stores of Build\<close>

lemma write_header_fields:
  assumes "write_header d lo ls ds = Some d'"
  shows "length d' = length d"
    and "load_u64 d' off_magic = Some DB_FILE_MAGIC"
    and "load_u8 d' off_version = Some DB_FILE_CURR_VERSION"
    and "load_u8 d' off_flags = load_u8 d off_flags"
    and "load_u16 d' off_links_count = Some (ucast (ucast ls :: 32 word))"
    and "load_u32 d' off_links_table_offset = Some (ucast lo)"
    and "load_u32 d' off_start_offset = load_u32 d off_start_offset"
    and "load_u32 d' off_data_size = Some (ucast ds)"
    and "load_u32 d' off_file_size = Some (of_nat (length d))"
    and "drop 28 d' = drop 28 d"
proof -
  from assms obtain d1 d2 d3 d4 d5 where
    s1: "store_u64 d off_magic DB_FILE_MAGIC = Some d1" and
    s2: "store_u8 d1 off_version DB_FILE_CURR_VERSION = Some d2" and
    s3: "store_u32 d2 off_links_table_offset (ucast lo) = Some d3" and
    s4: "store_u16 d3 off_links_count (ucast (ucast ls :: 32 word)) = Some d4" and
    s5: "store_u32 d4 off_data_size (ucast ds) = Some d5" and
    s6: "store_u32 d5 off_file_size (of_nat (length d5)) = Some d'"
    by (auto simp: write_header_def split: Option.bind_splits)
  note t1 = s1 [unfolded store_u64_def] and t2 = s2 [unfolded store_u8_def]
    and t3 = s3 [unfolded store_u32_def] and t4 = s4 [unfolded store_u16_def]
    and t5 = s5 [unfolded store_u32_def] and t6 = s6 [unfolded store_u32_def]
  note offs = off_magic_def off_version_def off_flags_def off_links_count_def
    off_links_table_offset_def off_start_offset_def off_data_size_def off_file_size_def
  note lens = store_length [OF t1] store_length [OF t2] store_length [OF t3]
    store_length [OF t4] store_length [OF t5] store_length [OF t6]
  show "length d' = length d"
    by (simp add: lens)
  show "load_u64 d' off_magic = Some DB_FILE_MAGIC"
    using load_u64_store_u64 [OF s1]
    by (simp add: load_u64_def offs load_store_other [OF t6] load_store_other [OF t5]
        load_store_other [OF t4] load_store_other [OF t3] load_store_other [OF t2])
  show "load_u8 d' off_version = Some DB_FILE_CURR_VERSION"
    using load_u8_store_u8 [OF s2]
    by (simp add: load_u8_def offs load_store_other [OF t6] load_store_other [OF t5]
        load_store_other [OF t4] load_store_other [OF t3])
  show "load_u8 d' off_flags = load_u8 d off_flags"
    by (simp add: load_u8_def offs load_store_other [OF t6] load_store_other [OF t5]
        load_store_other [OF t4] load_store_other [OF t3] load_store_other [OF t2]
        load_store_other [OF t1])
  show "load_u16 d' off_links_count = Some (ucast (ucast ls :: 32 word))"
    using load_u16_store_u16 [OF s4]
    by (simp add: load_u16_def offs load_store_other [OF t6] load_store_other [OF t5])
  show "load_u32 d' off_links_table_offset = Some (ucast lo)"
    using load_u32_store_u32 [OF s3]
    by (simp add: load_u32_def offs load_store_other [OF t6] load_store_other [OF t5]
        load_store_other [OF t4])
  show "load_u32 d' off_start_offset = load_u32 d off_start_offset"
    by (simp add: load_u32_def offs load_store_other [OF t6] load_store_other [OF t5]
        load_store_other [OF t4] load_store_other [OF t3] load_store_other [OF t2]
        load_store_other [OF t1])
  show "load_u32 d' off_data_size = Some (ucast ds)"
    using load_u32_store_u32 [OF s5]
    by (simp add: load_u32_def offs load_store_other [OF t6])
  show "load_u32 d' off_file_size = Some (of_nat (length d))"
    using load_u32_store_u32 [OF s6] by (simp add: lens)
  show "drop 28 d' = drop 28 d"
    by (simp add: offs store_drop [OF t6] store_drop [OF t5] store_drop [OF t4]
        store_drop [OF t3] store_drop [OF t2] store_drop [OF t1])
qed

lemma write_header_Some:
  assumes "28 \<le> length d"
  shows "\<exists>d'. write_header d lo ls ds = Some d'"
  using assms
  by (auto simp: write_header_def store_u64_def store_u8_def store_u16_def store_u32_def
      store_def off_magic_def off_version_def off_flags_def off_links_count_def
      off_links_table_offset_def off_start_offset_def off_data_size_def off_file_size_def)

subsection \<open>The builder\<close>

lemmas offs = off_magic_def off_version_def off_flags_def off_links_count_def
    off_links_table_offset_def off_start_offset_def off_data_size_def off_file_size_def

lemma header_view_SomeD:
  assumes "header_view mem = Some h"
  shows "load_u64 mem off_magic = Some (magic h)"
    and "load_u8 mem off_version = Some (version h)"
    and "load_u8 mem off_flags = Some (flags h)"
    and "load_u16 mem off_links_count = Some (links_count h)"
    and "load_u32 mem off_links_table_offset = Some (links_table_offset h)"
    and "load_u32 mem off_start_offset = Some (start_offset h)"
    and "load_u32 mem off_data_size = Some (data_size h)"
    and "load_u32 mem off_file_size = Some (file_size h)"
  using assms by (auto simp: header_view_def split: Option.bind_splits)

lemma load_append_left: "off + n \<le> length xs \<Longrightarrow> load n (xs @ ys) off = load n xs off"
  by (simp add: load_def)

lemma resize_grow: "length xs \<le> n \<Longrightarrow> resize xs n = xs @ replicate (n - length xs) 0"
  by (simp add: resize_def)

lemma header_view_Some:
  assumes "28 \<le> length mem"
  shows "\<exists>h. header_view mem = Some h"
  using assms
  by (simp add: header_view_def load_u64_def load_u32_def load_u16_def load_u8_def load_def offs)

lemma DBFileBuilder_success:
  assumes "20 \<le> sz"
  shows "fst (DBFileBuilder sz) = Inr ()"
    and "\<not> linked (snd (DBFileBuilder sz))"
    and "length (data (snd (DBFileBuilder sz))) = sz"
    and "load_u32 (data (snd (DBFileBuilder sz))) off_start_offset = Some (of_nat sz)"
    and "blocks (snd (DBFileBuilder sz)) = Map.empty"
    and "links (snd (DBFileBuilder sz)) = []"
proof -
  have "off_start_offset + length (le_bytes 4 (unat (of_nat sz :: 32 word)))
      \<le> length (replicate sz (0 :: byte))"
    using assms by (simp add: offs)
  then obtain d where
    d: "store_u32 (replicate sz 0) off_start_offset (of_nat sz) = Some d"
    unfolding store_u32_def store_def by (simp del: le_bytes.simps)
  then have eq: "DBFileBuilder sz
      = (Inr (), \<lparr>linked = False, data = d, blocks = Map.empty, links = []\<rparr>)"
    by (simp add: DBFileBuilder_def)
  show "fst (DBFileBuilder sz) = Inr ()" "\<not> linked (snd (DBFileBuilder sz))"
    "blocks (snd (DBFileBuilder sz)) = Map.empty" "links (snd (DBFileBuilder sz)) = []"
    by (simp_all add: eq)
  show "length (data (snd (DBFileBuilder sz))) = sz"
    using store_length [OF d [unfolded store_u32_def]] by (simp add: eq)
  show "load_u32 (data (snd (DBFileBuilder sz))) off_start_offset = Some (of_nat sz)"
    using load_u32_store_u32 [OF d] by (simp add: eq)
qed

lemma builder0_facts:
  "\<not> linked builder0" "length (data builder0) = 112"
  "load_u32 (data builder0) off_start_offset = Some 112"
  "blocks builder0 = Map.empty" "links builder0 = []"
  using DBFileBuilder_success [of 112] by (simp_all add: builder0_def)

lemma builder16_facts:
  "\<not> linked builder16" "length (data builder16) = 128"
  "load_u32 (data builder16) off_start_offset = Some 112"
  "blocks builder16 = [112 \<mapsto> 16]" "links builder16 = []"
  using builder0_facts(3)
  by (simp_all add: builder16_def CreateBlockInPlace_def AssertNotLinked_def builder0_facts
      INT32_MAX_def resize_grow load_u32_def load_append_left offs)

lemma length_link_table [simp]: "length (concat (map link_bytes ls)) = 8 * length ls"
  by (induction ls) (simp_all add: link_bytes_def)

lemma size_t_le_INT32_MAX:
  assumes "n \<le> 2147483647"
  shows "\<not> (of_nat n :: 64 word) > INT32_MAX"
proof -
  have "unat (of_nat n :: 64 word) = n"
    using assms by (simp add: unat_of_nat)
  then show ?thesis
    using assms by (simp add: INT32_MAX_def word_less_nat_alt)
qed

lemma ucast_of_nat_64_32: "(ucast (of_nat n :: 64 word) :: 32 word) = of_nat n"
  by transfer (simp add: take_bit_of_nat min_def)

lemma ucast_of_nat_32_16: "(ucast (of_nat n :: 32 word) :: 16 word) = of_nat n"
  by transfer (simp add: take_bit_of_nat min_def)

lemma Build_success:
  assumes nl: "\<not> linked b" and len: "28 \<le> length (data b)"
    and so: "load_u32 (data b) off_start_offset = Some so"
    and cap: "length (data b) + 8 * length (links b) \<le> 2147483647"
  shows "fst (Build b) = Inr ()"
    and "linked (snd (Build b))"
    and "links (snd (Build b)) = links b"
    and "blocks (snd (Build b)) = blocks b"
    and "length (data (snd (Build b))) = length (data b) + 8 * length (links b)"
    and "drop 28 (data (snd (Build b))) = drop 28 (data b @ concat (map link_bytes (links b)))"
    and "header_view (data (snd (Build b))) = Some
          \<lparr>magic = DB_FILE_MAGIC, version = DB_FILE_CURR_VERSION,
           flags = the (load_u8 (data b) off_flags),
           links_count = of_nat (length (links b)),
           links_table_offset = of_nat (length (data b)),
           start_offset = so,
           data_size = ucast ((of_nat (length (data b)) :: 64 word) - ucast so),
           file_size = of_nat (length (data b) + 8 * length (links b))\<rparr>"
proof -
  define d0 where "d0 = data b @ concat (map link_bytes (links b))"
  define ds where "ds = (of_nat (length (data b)) :: 64 word) - ucast so"
  have d0_len: "length d0 = length (data b) + 8 * length (links b)"
    by (simp add: d0_def)
  then obtain d where d: "write_header d0 (of_nat (length (data b))) (of_nat (length (links b))) ds = Some d"
    using write_header_Some [of d0] len by (metis trans_le_add1)
  have "(of_nat (length (data b)) :: 64 word) + of_nat sizeof_DB_FILE_LINK * of_nat (length (links b))
      = of_nat (length (data b) + 8 * length (links b))"
    by (simp add: sizeof_DB_FILE_LINK_def)
  then have nocap: "\<not> (of_nat (length (data b)) :: 64 word)
      + of_nat sizeof_DB_FILE_LINK * of_nat (length (links b)) > INT32_MAX"
    using size_t_le_INT32_MAX [OF cap] by simp
  have eq: "Build b = (Inr (), b\<lparr>linked := True, data := d\<rparr>)"
    using nl so nocap d [unfolded d0_def ds_def] by (auto simp: Build_def Let_def)
  note f = write_header_fields [OF d]
  show "fst (Build b) = Inr ()" "linked (snd (Build b))" "links (snd (Build b)) = links b"
    "blocks (snd (Build b)) = blocks b"
    by (simp_all add: eq)
  show "length (data (snd (Build b))) = length (data b) + 8 * length (links b)"
    by (simp add: eq f(1) d0_len)
  show "drop 28 (data (snd (Build b))) = drop 28 (data b @ concat (map link_bytes (links b)))"
    by (simp add: eq f(10) d0_def)
  have "28 \<le> length d"
    using len by (simp add: f(1) d0_len)
  then obtain h where h: "header_view d = Some h"
    using header_view_Some by blast
  have fl: "load_u8 d0 off_flags = load_u8 (data b) off_flags"
    using len by (simp add: d0_def load_u8_def load_append_left offs)
  have st: "load_u32 d0 off_start_offset = Some so"
    using len so by (simp add: d0_def load_u32_def load_append_left offs)
  show "header_view (data (snd (Build b))) = Some
          \<lparr>magic = DB_FILE_MAGIC, version = DB_FILE_CURR_VERSION,
           flags = the (load_u8 (data b) off_flags),
           links_count = of_nat (length (links b)),
           links_table_offset = of_nat (length (data b)),
           start_offset = so,
           data_size = ucast ((of_nat (length (data b)) :: 64 word) - ucast so),
           file_size = of_nat (length (data b) + 8 * length (links b))\<rparr>"
    using header_view_SomeD [OF h] f(2-9) fl st
    by (cases h) (simp add: eq h ds_def d0_len ucast_of_nat_64_32 ucast_of_nat_32_16)
qed

lemma Build_builder16:
  "fst (Build builder16) = Inr ()" "linked (snd (Build builder16))"
  "length (data (snd (Build builder16))) = 128"
  "links (snd (Build builder16)) = []"
  "blocks (snd (Build builder16)) = [112 \<mapsto> 16]"
  "Header (snd (Build builder16)) = Some
          \<lparr>magic = DB_FILE_MAGIC, version = DB_FILE_CURR_VERSION,
           flags = the (load_u8 (data builder16) off_flags),
           links_count = 0, links_table_offset = 128, start_offset = 112,
           data_size = 16, file_size = 128\<rparr>"
  using Build_success [of builder16 112]
  by (simp_all add: builder16_facts Header_def)

subsection \<open>Building twice\<close>

text \<open>
  C6. When \<open>Build\<close> has succeeded, a second \<open>Build\<close> succeeds too and leaves the builder
  as it is: the header it returns has the same fields, and the buffer has the same length.
\<close>

theorem Build_idempotent:
  assumes "fst (Build b) = Inr ()"
  shows "Build (snd (Build b)) = (Inr (), snd (Build b))
         \<and> Header (snd (Build (snd (Build b)))) = Header (snd (Build b))
         \<and> length (data (snd (Build (snd (Build b))))) = length (data (snd (Build b)))"
proof -
  have "linked (snd (Build b))"
    using assms by (auto simp: Build_def Let_def split: if_splits option.splits)
  then have "Build (snd (Build b)) = (Inr (), snd (Build b))"
    by (simp add: Build_def)
  then show ?thesis by simp
qed

theorem Build_idempotent_witness:
  "fst (Build builder16) = Inr ()
   \<and> Build (snd (Build builder16)) = (Inr (), snd (Build builder16))
   \<and> Header (snd (Build (snd (Build builder16)))) = Header (snd (Build builder16))
   \<and> length (data (snd (Build (snd (Build builder16))))) = length (data (snd (Build builder16)))"
  using Build_idempotent [OF Build_builder16(1)] Build_builder16(1) by simp

subsection \<open>Memory behind the header\<close>

lemma load_append_Some: "load n mem off = Some v \<Longrightarrow> load n (mem @ xs) off = Some v"
  by (auto simp: load_def split: if_splits)

lemma header_view_append:
  "header_view mem = Some h \<Longrightarrow> header_view (mem @ xs) = Some h"
  by (auto simp: header_view_def load_u64_def load_u32_def load_u16_def load_u8_def
      load_append_Some split: Option.bind_splits)

subsection \<open>Mutation after Build\<close>

text \<open>
  C3. In a build without \<^verbatim>\<open>DEBUG\<close>, \<open>CreateBlock\<close> and \<open>CreateLink\<close> on a finalized
  builder do not fail: the block is appended behind the finalized container (the buffer
  grows from 128 to 132 bytes while \<open>file_size\<close> stays 128) and the link is recorded
  (while \<open>links_count\<close> stays 0). With \<^verbatim>\<open>DEBUG\<close> the same calls are rejected.
\<close>

theorem mutation_after_Build_accepted:
  "fst (Build builder16) = Inr ()
   \<and> linked (snd (Build builder16))
   \<and> length (data (snd (Build builder16))) = 128
   \<and> map_option file_size (Header (snd (Build builder16))) = Some 128
   \<and> map_option links_count (Header (snd (Build builder16))) = Some 0
   \<and> fst (CreateBlockInPlace False 4 (snd (Build builder16))) = Inr 128
   \<and> length (data (snd (CreateBlockInPlace False 4 (snd (Build builder16))))) = 132
   \<and> map_option file_size (Header (snd (CreateBlockInPlace False 4 (snd (Build builder16)))))
       = Some 128
   \<and> fst (CreateBlock False [1, 2, 3, 4] 4 (snd (Build builder16))) = Inr 128
   \<and> length (data (snd (CreateBlock False [1, 2, 3, 4] 4 (snd (Build builder16))))) = 132
   \<and> fst (CreateLink False 112 0 112 8 (snd (Build builder16))) = Inr ()
   \<and> links (snd (CreateLink False 112 0 112 8 (snd (Build builder16))))
       = [\<lparr>origin = 112, destination = 120\<rparr>]
   \<and> map_option links_count (Header (snd (CreateLink False 112 0 112 8 (snd (Build builder16)))))
       = Some 0
   \<and> fst (CreateBlockInPlace True 4 (snd (Build builder16))) = Inl BuilderAlreadyLinked
   \<and> fst (CreateLink True 112 0 112 8 (snd (Build builder16))) = Inl BuilderAlreadyLinked"
  using header_view_append [OF Build_builder16(6) [unfolded Header_def], of "replicate 4 0"]
    Build_builder16(6) [unfolded Header_def]
  by (simp add: Build_builder16(1-5) CreateBlockInPlace_def CreateBlock_def CreateLink_def
      AssertNotLinked_def GetBlockSize_def INT32_MAX_def resize_grow Header_def)

text \<open>With \<^verbatim>\<open>DEBUG\<close>, every mutating call on a finalized builder is rejected.\<close>

lemma mutation_rejected_with_DEBUG:
  assumes "linked b"
  shows "CreateBlock True buffer len b = (Inl BuilderAlreadyLinked, b)"
    and "CreateBlockInPlace True len b = (Inl BuilderAlreadyLinked, b)"
    and "CreateLink True blockOrigin orig blockDestination dest b = (Inl BuilderAlreadyLinked, b)"
  using assms by (simp_all add: CreateBlock_def CreateBlockInPlace_def CreateLink_def
      AssertNotLinked_def)

subsection \<open>Bounds of a link at build time\<close>

text \<open>
  C4. \<open>origin + 8\<close> is computed in 32 bits. For the block 112 of 16 bytes and the origin
  offset \<open>0xFFFFFFF8\<close> the sum wraps to 0, the bounds check passes, and the link
  \<open>(104, 112)\<close> is recorded: its slot lies before the block.
\<close>

theorem CreateLink_origin_wraps:
  "GetBlockSize builder16 112 = 16
   \<and> links builder16 = []
   \<and> fst (CreateLink False 112 0xFFFFFFF8 112 0 builder16) = Inr ()
   \<and> links (snd (CreateLink False 112 0xFFFFFFF8 112 0 builder16))
       = [\<lparr>origin = 104, destination = 112\<rparr>]"
  by (simp add: CreateLink_def AssertNotLinked_def GetBlockSize_def builder16_facts)

text \<open>
  Where \<open>origin + 8\<close> does not wrap, \<open>CreateLink\<close> checks the two bounds as stated, and
  a failing call leaves the recorded links as they are.
\<close>

lemma CreateLink_without_wrap:
  assumes "\<not> (DEBUG \<and> linked b)" and "unat orig + 8 < 2 ^ 32"
  shows "CreateLink DEBUG blockOrigin orig blockDestination dest b =
     (if unat orig + 8 > unat (GetBlockSize b blockOrigin)
         \<or> unat dest > unat (GetBlockSize b blockDestination)
      then (Inl LinkAfterBlockEnd, b\<lparr>linked := False\<rparr>)
      else (Inr (), b\<lparr>linked := False, links := links b @
              [\<lparr>origin = blockOrigin + orig, destination = blockDestination + dest\<rparr>]\<rparr>))"
proof -
  have "unat (orig + 8) = unat orig + 8"
    using assms(2) by (simp add: unat_word_ariths)
  then have "orig + 8 > GetBlockSize b blockOrigin
      \<longleftrightarrow> unat orig + 8 > unat (GetBlockSize b blockOrigin)"
    by (simp add: word_less_nat_alt)
  then show ?thesis
    using assms(1)
    by (auto simp: CreateLink_def AssertNotLinked_def GetBlockSize_def Let_def word_less_nat_alt)
qed

subsection \<open>Where the payload starts\<close>

text \<open>
  C7. The constructor sizes the buffer with \<^verbatim>\<open>sizeof(DBFileBuilder)\<close>, not with the
  size of the header. Where that size is 112, \<open>start_offset\<close> is 112 and the first
  block has the id 112, not 28.
\<close>

theorem first_block_id_is_builder_size:
  "fst (DBFileBuilder 112) = Inr ()
   \<and> length (data builder0) = 112
   \<and> map_option start_offset (Header builder0) = Some 112
   \<and> fst (CreateBlock False [1, 2, 3, 4] 4 builder0) = Inr 112
   \<and> fst (CreateBlockInPlace False 4 builder0) = Inr 112"
proof -
  obtain h where h: "header_view (data builder0) = Some h"
    using header_view_Some [of "data builder0"] by (auto simp: builder0_facts)
  from header_view_SomeD(6) [OF h] have "map_option start_offset (Header builder0) = Some 112"
    by (simp add: Header_def h builder0_facts)
  then show ?thesis
    using DBFileBuilder_success(1) [of 112]
    by (simp add: CreateBlock_def CreateBlockInPlace_def AssertNotLinked_def builder0_facts
        INT32_MAX_def)
qed



subsection \<open>The size cap\<close>

text \<open>
  C9. \<open>id + len\<close> is computed in 64 bits. For a buffer of 128 bytes and the length
  \<open>2^64 - 1\<close> the sum wraps to 127, the check against \<^verbatim>\<open>INT32_MAX\<close> passes, the buffer
  is resized to 127 bytes, and the block 128 is recorded with the size \<open>0xFFFFFFFF\<close>.
\<close>

theorem CreateBlockInPlace_length_wraps:
  "length (data builder16) = 128
   \<and> fst (CreateBlockInPlace False 0xFFFFFFFFFFFFFFFF builder16) = Inr 128
   \<and> length (data (snd (CreateBlockInPlace False 0xFFFFFFFFFFFFFFFF builder16))) = 127
   \<and> blocks (snd (CreateBlockInPlace False 0xFFFFFFFFFFFFFFFF builder16)) 128 = Some 0xFFFFFFFF"
  by (simp add: CreateBlockInPlace_def AssertNotLinked_def builder16_facts INT32_MAX_def
      resize_def)

text \<open>
  Where \<open>id + len\<close> does not wrap, the cap is enforced before the buffer grows, by
  \<open>CreateBlock\<close> and by \<open>Build\<close>.
\<close>

lemma CreateBlockInPlace_without_wrap:
  assumes "\<not> (DEBUG \<and> linked b)" and "len \<noteq> 0"
    and "length (data b) + unat len < 2 ^ 64"
  shows "CreateBlockInPlace DEBUG len b =
     (if length (data b) + unat len > 2147483647 then (Inl FileTooBig, b\<lparr>linked := False\<rparr>)
      else (Inr (of_nat (length (data b))),
            b\<lparr>linked := False, data := data b @ replicate (unat len) 0,
              blocks := (blocks b)(of_nat (length (data b)) \<mapsto> ucast len)\<rparr>))"
proof -
  define n where "n = length (data b)"
  have un: "unat (of_nat n :: 64 word) = n"
    using assms(3) by (simp add: n_def unat_of_nat)
  then have add: "unat ((of_nat n :: 64 word) + len) = n + unat len"
    using assms(3) by (simp add: unat_word_ariths n_def)
  then have gt: "(of_nat n :: 64 word) + len > INT32_MAX \<longleftrightarrow> n + unat len > 2147483647"
    by (simp add: INT32_MAX_def word_less_nat_alt)
  have rs: "resize (data b) (n + unat len) = data b @ replicate (unat len) 0"
    by (simp add: resize_grow n_def)
  show ?thesis
    using assms(1,2) gt [unfolded n_def] add [unfolded n_def] rs [unfolded n_def]
    by (simp add: CreateBlockInPlace_def AssertNotLinked_def Let_def ucast_of_nat_64_32)
qed

lemma unat_of_nat_size_t: "n < 2 ^ 64 \<Longrightarrow> unat (of_nat n :: 64 word) = n"
  by (simp add: unat_of_nat)

lemma Build_too_big:
  assumes "\<not> linked b" and "load_u32 (data b) off_start_offset = Some so"
    and "links b \<noteq> []"
    and "length (data b) + 8 * length (links b) > 2147483647"
    and "length (data b) + 8 * length (links b) < 2 ^ 64"
  shows "Build b = (Inl FileTooBig, b\<lparr>linked := True\<rparr>)"
proof -
  have "(of_nat (length (data b)) :: 64 word) + of_nat sizeof_DB_FILE_LINK * of_nat (length (links b))
      = of_nat (length (data b) + 8 * length (links b))"
    by (simp add: sizeof_DB_FILE_LINK_def)
  moreover have "unat (of_nat (length (data b) + 8 * length (links b)) :: 64 word)
      = length (data b) + 8 * length (links b)"
    using assms(5) by (intro unat_of_nat_size_t) simp
  ultimately have "(of_nat (length (data b)) :: 64 word)
      + of_nat sizeof_DB_FILE_LINK * of_nat (length (links b)) > INT32_MAX"
    using assms(4) by (simp add: INT32_MAX_def word_less_nat_alt)
  then show ?thesis
    using assms(1-3) by (simp add: Build_def Let_def)
qed

text \<open>For every size of the builder object, the first block id is that size.\<close>

lemma first_block_id:
  assumes "20 \<le> sz" and "len \<noteq> 0" and "sz + unat len \<le> 2147483647"
  shows "fst (CreateBlockInPlace DEBUG len (snd (DBFileBuilder sz))) = Inr (of_nat sz)"
  using DBFileBuilder_success [OF assms(1)] assms(2,3)
    CreateBlockInPlace_without_wrap [of DEBUG "snd (DBFileBuilder sz)" len]
  by simp

subsection \<open>The reader\<close>

lemma of_nat_le_val_le_bytes_8: "of_nat (le_val (le_bytes 1 (unat (w :: 8 word)))) = w"
  using unsigned_less [of w, where ?'a = nat] by (simp only: le_val_le_bytes) simp
lemma of_nat_le_val_le_bytes_16: "of_nat (le_val (le_bytes 2 (unat (w :: 16 word)))) = w"
  using unsigned_less [of w, where ?'a = nat] by (simp only: le_val_le_bytes) simp
lemma of_nat_le_val_le_bytes_32: "of_nat (le_val (le_bytes 4 (unat (w :: 32 word)))) = w"
  using unsigned_less [of w, where ?'a = nat] by (simp only: le_val_le_bytes) simp
lemma of_nat_le_val_le_bytes_64: "of_nat (le_val (le_bytes 8 (unat (w :: 64 word)))) = w"
  using unsigned_less [of w, where ?'a = nat] by (simp only: le_val_le_bytes) simp

lemma length_DB_FILE_bytes [simp]: "length (DB_FILE_bytes h) = 28"
  by (simp add: DB_FILE_bytes_def del: le_bytes.simps)

lemma header_view_DB_FILE_bytes: "header_view (DB_FILE_bytes h) = Some h"
  by (simp add: header_view_def load_u64_def load_u32_def load_u16_def load_u8_def load_def offs
      DB_FILE_bytes_def of_nat_le_val_le_bytes_8 [unfolded One_nat_def] of_nat_le_val_le_bytes_16
      of_nat_le_val_le_bytes_32 of_nat_le_val_le_bytes_64 del: le_bytes.simps)

lemma length_link_bytes [simp]: "length (link_bytes l) = 8"
  by (simp add: link_bytes_def)

lemma load_link_bytes:
  "load_u32 (link_bytes l) 0 = Some (origin l)" "load_u32 (link_bytes l) 4 = Some (destination l)"
  by (simp_all add: load_u32_def load_def link_bytes_def of_nat_le_val_le_bytes_32
      del: le_bytes.simps)

lemma ValidateAndLink_header:
  assumes "header_view mem = Some h"
  shows "ValidateAndLink base len mem =
     (if len \<noteq> 0 \<and> len < 32 then (Inl FileTooSmall, mem)
      else if magic h \<noteq> DB_FILE_MAGIC then (Inl BadMagic, mem)
      else if version h < DB_FILE_MIN_VERSION then (Inl VersionTooLow, mem)
      else if len \<noteq> 0 \<and> ucast (file_size h) > len then (Inl ReadFileTooSmall, mem)
      else if start_offset h > file_size h then (Inl StartAfterEnd, mem)
      else if version h \<ge> LINKING then link_loop base (unat (links_table_offset h)) 0 mem
      else (Inr (), mem))"
  using header_view_SomeD [OF assms]
  by (simp add: ValidateAndLink_def off_file_size_def sizeof_size_t_def)

lemma link_loop_done:
  "load_u16 mem off_links_count = Some lc \<Longrightarrow> \<not> i < unat lc \<Longrightarrow>
   link_loop base tbl i mem = (Inr (), mem)"
  by (subst link_loop.simps) simp

lemma link_loop_step:
  "load_u16 mem off_links_count = Some lc \<Longrightarrow> i < unat lc \<Longrightarrow>
   load_u32 mem (tbl + 8 * i) = Some org \<Longrightarrow> load_u32 mem off_file_size = Some fs \<Longrightarrow>
   org \<le> fs \<Longrightarrow> load_u32 mem (tbl + 8 * i + 4) = Some dst \<Longrightarrow> dst \<le> fs \<Longrightarrow>
   link_loop base tbl i mem =
     (case store_u64 mem (unat org) (base + ucast dst) of
        None \<Rightarrow> (Inl MemFault, mem)
      | Some mem' \<Rightarrow> link_loop base tbl (Suc i) mem')"
  by (subst link_loop.simps) (simp add: sizeof_DB_FILE_LINK_def not_less [symmetric])

lemma load_append_right: "load n (xs @ ys) (length xs + off) = load n ys off"
  by (simp add: load_def)

subsection \<open>Rejection by the reader\<close>

text \<open>
  A buffer that holds a header whose magic is not the constant, or whose version is
  below the minimum, or whose \<open>file_size\<close> exceeds the known length \<open>len\<close> (a length of
  0 means unknown) is rejected, and the memory the reader leaves behind is the memory it
  was given. The error is that of the first check that fails, in the order of the
  source: file too small, bad magic, version too low, read file too small.
\<close>

lemma ValidateAndLink_first_failing_check:
  assumes "header_view mem = Some h"
    and "magic h \<noteq> DB_FILE_MAGIC \<or> version h < DB_FILE_MIN_VERSION
         \<or> (len \<noteq> 0 \<and> ucast (file_size h) > len)"
  shows "ValidateAndLink base len mem =
           (Inl (if len \<noteq> 0 \<and> len < 32 then FileTooSmall
                 else if magic h \<noteq> DB_FILE_MAGIC then BadMagic
                 else if version h < DB_FILE_MIN_VERSION then VersionTooLow
                 else ReadFileTooSmall), mem)"
  using assms(2) header_view_SomeD [OF assms(1)]
  by (auto simp: ValidateAndLink_def off_file_size_def sizeof_size_t_def)

text \<open>
  With a known length that is 0 or at least 32, each of the three faults gets its own
  error.
\<close>

lemma ValidateAndLink_corresponding_error:
  assumes "header_view mem = Some h" and "len = 0 \<or> 32 \<le> len"
  shows "magic h \<noteq> DB_FILE_MAGIC \<Longrightarrow> ValidateAndLink base len mem = (Inl BadMagic, mem)"
    and "magic h = DB_FILE_MAGIC \<Longrightarrow> version h < DB_FILE_MIN_VERSION \<Longrightarrow>
         ValidateAndLink base len mem = (Inl VersionTooLow, mem)"
    and "magic h = DB_FILE_MAGIC \<Longrightarrow> \<not> version h < DB_FILE_MIN_VERSION \<Longrightarrow>
         len \<noteq> 0 \<Longrightarrow> ucast (file_size h) > len \<Longrightarrow>
         ValidateAndLink base len mem = (Inl ReadFileTooSmall, mem)"
  using assms(2) by (auto simp: ValidateAndLink_header [OF assms(1)])

lemma header_view_bad_magic_file28: "header_view bad_magic_file28 = Some bad_magic_header28"
  unfolding bad_magic_file28_def by (rule header_view_DB_FILE_bytes)

text \<open>
  C2. The length check comes first and its threshold is 32, not 28. \<open>bad_magic_file28\<close>
  is a complete header of 28 bytes whose magic is corrupted: with the known length 28
  (and, with 3 more bytes of memory, with the known length 31) the reader fails with
  file too small, not with bad magic. With an unknown length, and with 4 more bytes of
  memory and the known length 32, it fails with bad magic. The memory is unchanged in
  each case.
\<close>

theorem corrupted_magic_reported_as_too_small:
  "length bad_magic_file28 = 28
   \<and> header_view bad_magic_file28 = Some bad_magic_header28
   \<and> magic bad_magic_header28 \<noteq> DB_FILE_MAGIC
   \<and> ValidateAndLink 0x1000 28 bad_magic_file28 = (Inl FileTooSmall, bad_magic_file28)
   \<and> ValidateAndLink 0x1000 31 (bad_magic_file28 @ [0, 0, 0])
       = (Inl FileTooSmall, bad_magic_file28 @ [0, 0, 0])
   \<and> ValidateAndLink 0x1000 0 bad_magic_file28 = (Inl BadMagic, bad_magic_file28)
   \<and> ValidateAndLink 0x1000 32 (bad_magic_file28 @ [0, 0, 0, 0])
       = (Inl BadMagic, bad_magic_file28 @ [0, 0, 0, 0])"
proof -
  note h = header_view_bad_magic_file28
  note h4 = header_view_append [OF h, of "[0, 0, 0, 0]"]
  have m: "magic bad_magic_header28 \<noteq> DB_FILE_MAGIC"
    by (simp add: bad_magic_header28_def DB_FILE_MAGIC_def)
  have small: "ValidateAndLink 0x1000 28 bad_magic_file28 = (Inl FileTooSmall, bad_magic_file28)"
    "ValidateAndLink 0x1000 31 (bad_magic_file28 @ [0, 0, 0])
       = (Inl FileTooSmall, bad_magic_file28 @ [0, 0, 0])"
    by (simp_all add: ValidateAndLink_def off_file_size_def sizeof_size_t_def)
  have bad: "ValidateAndLink 0x1000 0 bad_magic_file28 = (Inl BadMagic, bad_magic_file28)"
    "ValidateAndLink 0x1000 32 (bad_magic_file28 @ [0, 0, 0, 0])
       = (Inl BadMagic, bad_magic_file28 @ [0, 0, 0, 0])"
    using m by (simp_all add: ValidateAndLink_header [OF h] ValidateAndLink_header [OF h4])
  show ?thesis
    using h m small bad by (simp add: bad_magic_file28_def)
qed

lemma header_view_file28: "header_view file28 = Some header28"
  unfolding file28_def by (rule header_view_DB_FILE_bytes)

subsection \<open>The smallest length the reader accepts\<close>

text \<open>
  C8. The first check compares the known length with
  \<^verbatim>\<open>offsetof(DB_FILE, file_size) + sizeof(sizeof(file->file_size))\<close>, which is
  \<open>24 + sizeof(size_t) = 32\<close>. The well-formed file of 28 bytes is rejected as too small
  with the known length 28 (and, with 3 more bytes of memory, with the known length 31);
  it is accepted with an unknown length, and with 4 more bytes of memory and the known
  length 32.
\<close>

theorem length_28_rejected_as_too_small:
  "length file28 = 28
   \<and> header_view file28 = Some header28
   \<and> ValidateAndLink 0x1000 28 file28 = (Inl FileTooSmall, file28)
   \<and> ValidateAndLink 0x1000 31 (file28 @ [0, 0, 0]) = (Inl FileTooSmall, file28 @ [0, 0, 0])
   \<and> ValidateAndLink 0x1000 0 file28 = (Inr (), file28)
   \<and> ValidateAndLink 0x1000 32 (file28 @ [0, 0, 0, 0]) = (Inr (), file28 @ [0, 0, 0, 0])"
proof -
  note h = header_view_file28
  note h4 = header_view_append [OF h, of "[0, 0, 0, 0]"]
  have lc: "links_count header28 = 0"
    by (simp add: header28_def)
  have a: "ValidateAndLink 0x1000 28 file28 = (Inl FileTooSmall, file28)"
    "ValidateAndLink 0x1000 31 (file28 @ [0, 0, 0]) = (Inl FileTooSmall, file28 @ [0, 0, 0])"
    by (simp_all add: ValidateAndLink_def off_file_size_def sizeof_size_t_def)
  have b: "ValidateAndLink 0x1000 0 file28 = link_loop 0x1000 28 0 file28"
    by (simp add: ValidateAndLink_header [OF h])
      (simp add: header28_def DB_FILE_MIN_VERSION_def DB_FILE_CURR_VERSION_def LINKING_def)
  have c: "ValidateAndLink 0x1000 32 (file28 @ [0, 0, 0, 0])
      = link_loop 0x1000 28 0 (file28 @ [0, 0, 0, 0])"
    by (simp add: ValidateAndLink_header [OF h4])
      (simp add: header28_def DB_FILE_MIN_VERSION_def DB_FILE_CURR_VERSION_def LINKING_def)
  have "link_loop 0x1000 28 0 file28 = (Inr (), file28)"
    using header_view_SomeD(4) [OF h] by (simp add: link_loop_done lc)
  moreover have "link_loop 0x1000 28 0 (file28 @ [0, 0, 0, 0]) = (Inr (), file28 @ [0, 0, 0, 0])"
    using header_view_SomeD(4) [OF h4] by (simp add: link_loop_done lc)
  ultimately show ?thesis
    using a b c h by (simp add: file28_def)
qed

text \<open>Every known length from 1 to 31 is rejected, whatever the memory holds.\<close>

lemma ValidateAndLink_too_small:
  "len \<noteq> 0 \<Longrightarrow> len < 32 \<Longrightarrow> ValidateAndLink base len mem = (Inl FileTooSmall, mem)"
  by (simp add: ValidateAndLink_def off_file_size_def sizeof_size_t_def)

lemma header_view_file36: "header_view file36 = Some header36"
  unfolding file36_def by (rule header_view_append [OF header_view_DB_FILE_bytes])

subsection \<open>Accesses of the reader\<close>

text \<open>
  C5. \<open>file36\<close> declares 36 bytes and passes every check of the reader with the known
  length 36; its link has the origin 36, which is not greater than \<open>file_size\<close>. On a
  memory of exactly 36 bytes the store of the address is an access outside the memory.
  On a memory with 8 more bytes (all 0), the store overwrites these 8 bytes, behind the
  declared container, with the address \<open>0x1001\<close>.
\<close>

theorem ValidateAndLink_writes_past_file_size:
  "length file36 = 36
   \<and> header_view file36 = Some header36
   \<and> file_size header36 = 36
   \<and> ValidateAndLink 0x1000 36 file36 = (Inl MemFault, file36)
   \<and> ValidateAndLink 0x1000 36 (file36 @ replicate 8 0)
       = (Inr (), file36 @ [0x01, 0x10, 0, 0, 0, 0, 0, 0])"
proof -
  define m where "m = file36 @ replicate 8 (0 :: byte)"
  define m' where "m' = file36 @ [0x01, 0x10, 0, 0, 0, 0, 0, 0 :: byte]"
  note h = header_view_file36
  have hm: "header_view m = Some header36" "header_view m' = Some header36"
    unfolding m_def m'_def by (rule header_view_append [OF h])+
  have len: "length file36 = 36"
    by (simp add: file36_def)
  have v: "ValidateAndLink 0x1000 36 mem = link_loop 0x1000 28 0 mem"
    if "header_view mem = Some header36" for mem
    by (simp add: ValidateAndLink_header [OF that])
      (simp add: header36_def DB_FILE_MIN_VERSION_def DB_FILE_CURR_VERSION_def LINKING_def
        DB_FILE_MAGIC_def)
  have lk: "load_u32 (file36 @ xs) 28 = Some 36" "load_u32 (file36 @ xs) 32 = Some 1" for xs
    using load_append_right [of 4 "DB_FILE_bytes header36" "link_bytes link36 @ xs" 0]
      load_append_right [of 4 "DB_FILE_bytes header36" "link_bytes link36 @ xs" 4]
      load_link_bytes [of link36]
    by (simp_all add: file36_def load_u32_def load_append_left link36_def)
  have st: "store_u64 file36 36 0x1001 = None" "store_u64 m 36 0x1001 = Some m'"
    by (simp_all add: store_u64_def store_def len m_def m'_def le_bytes_eval)
  have s1: "link_loop 0x1000 28 0 file36 = (Inl MemFault, file36)"
    using header_view_SomeD(4,8) [OF h] lk [of "[]"] st(1)
    by (subst link_loop_step [where lc = 1 and org = 36 and fs = 36 and dst = 1])
      (simp_all add: header36_def)
  have s2: "link_loop 0x1000 28 0 m = link_loop 0x1000 28 (Suc 0) m'"
    using header_view_SomeD(4,8) [OF hm(1)] lk [of "replicate 8 0"] st(2)
    by (subst link_loop_step [where lc = 1 and org = 36 and fs = 36 and dst = 1])
      (simp_all add: header36_def m_def)
  have s3: "link_loop 0x1000 28 (Suc 0) m' = (Inr (), m')"
    using header_view_SomeD(4) [OF hm(2)] by (simp add: link_loop_done header36_def)
  show ?thesis
    using v [OF h] v [OF hm(1)] s1 s2 s3 h len
    by (simp add: m_def m'_def header36_def)
qed

subsection \<open>The number of links in the header\<close>

lemma CreateLink_once:
  assumes "blocks b 112 = Some 16" and "\<not> linked b"
  shows "snd (CreateLink False 112 0 112 0 b)
         = b\<lparr>links := links b @ [\<lparr>origin = 112, destination = 112\<rparr>]\<rparr>"
  using assms by (simp add: CreateLink_def AssertNotLinked_def GetBlockSize_def)

lemma CreateLink_repeated:
  assumes "blocks b 112 = Some 16" and "\<not> linked b"
  shows "((\<lambda>b. snd (CreateLink False 112 0 112 0 b)) ^^ n) b
         = b\<lparr>links := links b @ replicate n \<lparr>origin = 112, destination = 112\<rparr>\<rparr>"
proof (induction n)
  case 0
  show ?case by simp
next
  case (Suc n)
  define b' where "b' = b\<lparr>links := links b @ replicate n \<lparr>origin = 112, destination = 112\<rparr>\<rparr>"
  have "((\<lambda>b. snd (CreateLink False 112 0 112 0 b)) ^^ Suc n) b
      = snd (CreateLink False 112 0 112 0 b')"
    by (simp only: funpow.simps o_apply Suc b'_def)
  also have "\<dots> = b'\<lparr>links := links b' @ [\<lparr>origin = 112, destination = 112\<rparr>]\<rparr>"
    using assms by (intro CreateLink_once) (simp_all add: b'_def)
  also have "\<dots> = b\<lparr>links := links b @ replicate (Suc n) \<lparr>origin = 112, destination = 112\<rparr>\<rparr>"
    by (simp add: b'_def replicate_append_same)
  finally show ?case .
qed

lemma builder_many_links_facts:
  "\<not> linked builder_many_links" "data builder_many_links = data builder16"
  "links builder_many_links = replicate 65536 \<lparr>origin = 112, destination = 112\<rparr>"
  using CreateLink_repeated [of builder16 65536]
  by (simp_all add: builder_many_links_def builder16_facts)

text \<open>
  C10. \<open>links_count\<close> has 16 bits: \<^verbatim>\<open>Build\<close> stores \<^verbatim>\<open>(uint32_t)links.size()\<close> into
  it. After 65536 calls of \<open>CreateLink\<close> the builder holds 65536 link records, \<open>Build\<close>
  succeeds and appends a table of \<open>8 * 65536\<close> bytes at offset 128, and \<open>links_count\<close>
  is 0.
\<close>

theorem links_count_truncated:
  "length (links builder_many_links) = 65536
   \<and> fst (Build builder_many_links) = Inr ()
   \<and> length (data (snd (Build builder_many_links))) = 128 + 8 * 65536
   \<and> map_option links_table_offset (Header (snd (Build builder_many_links))) = Some 128
   \<and> map_option links_count (Header (snd (Build builder_many_links))) = Some 0"
  using Build_success [of builder_many_links 112]
  by (simp add: builder_many_links_facts builder16_facts Header_def)

text \<open>With fewer than 65536 links the field is the number of links.\<close>

lemma links_count_exact:
  assumes "\<not> linked b" and "28 \<le> length (data b)"
    and "load_u32 (data b) off_start_offset = Some so"
    and "length (data b) + 8 * length (links b) \<le> 2147483647"
    and "length (links b) < 65536"
  shows "map_option (\<lambda>h. unat (links_count h)) (Header (snd (Build b))) = Some (length (links b))"
  using Build_success(7) [OF assms(1-4)] assms(5)
  by (simp add: Header_def unat_of_nat)

subsection \<open>The link loop on a well-formed container\<close>

lemma store_u64_put_link:
  "unat (origin l) + 8 \<le> length mem \<Longrightarrow>
   store_u64 mem (unat (origin l)) (base + ucast (destination l)) = Some (put_link base l mem)"
  by (simp add: store_u64_def store_def put_link_def del: le_bytes.simps)

lemma load_drop: "k \<le> length mem \<Longrightarrow> load n (drop k mem) off = load n mem (k + off)"
  by (auto simp: load_def add.commute add.left_commute)

lemma load_table:
  "i < length ls \<Longrightarrow>
   load_u32 (concat (map link_bytes ls)) (8 * i) = Some (origin (ls ! i))
   \<and> load_u32 (concat (map link_bytes ls)) (8 * i + 4) = Some (destination (ls ! i))"
proof (induction ls arbitrary: i)
  case Nil
  then show ?case by simp
next
  case (Cons l ls)
  show ?case
  proof (cases i)
    case 0
    then show ?thesis
      using load_link_bytes [of l] by (simp add: load_u32_def load_append_left)
  next
    case (Suc j)
    then have j: "j < length ls" using Cons.prems by simp
    have "load 4 (link_bytes l @ concat (map link_bytes ls)) (length (link_bytes l) + off)
        = load 4 (concat (map link_bytes ls)) off" for off
      by (rule load_append_right)
    from this [of "8 * j"] this [of "8 * j + 4"] Cons.IH [OF j] show ?thesis
      by (simp add: Suc load_u32_def)
  qed
qed


lemma put_link_length:
  "unat (origin l) + 8 \<le> length mem \<Longrightarrow> length (put_link base l mem) = length mem"
  by (simp add: put_link_def)

lemma put_link_load_other:
  assumes "unat (origin l) + 8 \<le> length mem"
    and "off + n \<le> unat (origin l) \<or> unat (origin l) + 8 \<le> off"
  shows "load n (put_link base l mem) off = load n mem off"
  using load_store_other [OF store_u64_put_link [OF assms(1), unfolded store_u64_def], of off n base]
    assms(2) by simp

lemma put_link_drop:
  "unat (origin l) + 8 \<le> length mem \<Longrightarrow> unat (origin l) + 8 \<le> k \<Longrightarrow>
   drop k (put_link base l mem) = drop k mem"
  by (simp add: put_link_def)

lemma put_link_load_same:
  assumes "unat (origin l) + 8 \<le> length mem"
  shows "load_u64 (put_link base l mem) (unat (origin l)) = Some (base + ucast (destination l))"
  using load_u64_store_u64 [OF store_u64_put_link [OF assms]] .

lemma put_link_nth_other:
  assumes "unat (origin l) + 8 \<le> length mem"
    and "i < unat (origin l) \<or> unat (origin l) + 8 \<le> i"
  shows "put_link base l mem ! i = mem ! i"
  using assms by (auto simp: put_link_def nth_append)

lemma link_loop_resolve:
  assumes "n = length ls" and "n < 65536"
    and "\<forall>l \<in> set ls. 28 \<le> unat (origin l) \<and> unat (origin l) + 8 \<le> T
           \<and> origin l \<le> fs \<and> destination l \<le> fs"
    and "T \<le> length mem" and "drop T mem = concat (map link_bytes ls)"
    and "load_u16 mem off_links_count = Some (of_nat n)"
    and "load_u32 mem off_file_size = Some fs"
    and "i \<le> n"
  shows "link_loop base T i mem = (Inr (), resolve base (drop i ls) mem)"
  using assms(4-8)
proof (induction "n - i" arbitrary: i mem)
  case 0
  then have "i = n" by simp
  moreover have "unat (of_nat n :: 16 word) = n"
    using assms(2) by (simp add: unat_of_nat)
  ultimately show ?case
    using "0.prems" assms(1) by (simp add: link_loop_done resolve_def)
next
  case (Suc k)
  then have i: "i < n" by simp
  define l where "l = ls ! i"
  have lset: "l \<in> set ls"
    using i assms(1) by (simp add: l_def)
  with assms(3) have lb: "28 \<le> unat (origin l)" "unat (origin l) + 8 \<le> T"
    "origin l \<le> fs" "destination l \<le> fs"
    by auto
  have un: "unat (of_nat n :: 16 word) = n"
    using assms(2) by (simp add: unat_of_nat)
  have tb: "load_u32 mem (T + 8 * i) = Some (origin l)"
    "load_u32 mem (T + 8 * i + 4) = Some (destination l)"
    using load_table [of i ls] i assms(1) load_drop [OF Suc.prems(1), of 4 "8 * i"]
      load_drop [OF Suc.prems(1), of 4 "8 * i + 4"]
    by (simp_all add: load_u32_def Suc.prems(2) l_def add.assoc)
  have inr: "unat (origin l) + 8 \<le> length mem"
    using lb(2) Suc.prems(1) by simp
  define mem' where "mem' = put_link base l mem"
  have step: "link_loop base T i mem = link_loop base T (Suc i) mem'"
    using Suc.prems(3,4) i un tb lb(3,4) store_u64_put_link [OF inr, of base]
    by (subst link_loop_step [where lc = "of_nat n" and org = "origin l" and fs = fs
          and dst = "destination l"]) (simp_all add: mem'_def)
  have "link_loop base T (Suc i) mem' = (Inr (), resolve base (drop (Suc i) ls) mem')"
  proof (rule Suc.hyps(1))
    show "k = n - Suc i" using Suc.hyps(2) by simp
    show "T \<le> length mem'"
      using Suc.prems(1) by (simp add: mem'_def put_link_length [OF inr])
    show "drop T mem' = concat (map link_bytes ls)"
      using Suc.prems(2) by (simp add: mem'_def put_link_drop [OF inr lb(2)])
    show "load_u16 mem' off_links_count = Some (of_nat n)"
      using Suc.prems(3) lb(1)
      by (simp add: mem'_def load_u16_def put_link_load_other [OF inr] offs)
    show "load_u32 mem' off_file_size = Some fs"
      using Suc.prems(4) lb(1)
      by (simp add: mem'_def load_u32_def put_link_load_other [OF inr] offs)
    show "Suc i \<le> n" using i by simp
  qed
  moreover have "drop i ls = l # drop (Suc i) ls"
    using i assms(1) by (simp add: l_def Cons_nth_drop_Suc)
  ultimately show ?case
    by (simp add: step resolve_def mem'_def)
qed


lemma resolve_length:
  "\<forall>l \<in> set ls. unat (origin l) + 8 \<le> length mem \<Longrightarrow>
   length (resolve base ls mem) = length mem"
  unfolding resolve_def
  by (induction ls arbitrary: mem) (simp_all add: put_link_length)

lemma resolve_load_other:
  "\<forall>l \<in> set ls. unat (origin l) + 8 \<le> length mem \<Longrightarrow>
   \<forall>l \<in> set ls. off + n \<le> unat (origin l) \<or> unat (origin l) + 8 \<le> off \<Longrightarrow>
   load n (resolve base ls mem) off = load n mem off"
  unfolding resolve_def
  by (induction ls arbitrary: mem) (simp_all add: put_link_length put_link_load_other)

lemma resolve_nth_other:
  "\<forall>l \<in> set ls. unat (origin l) + 8 \<le> length mem \<Longrightarrow>
   \<forall>l \<in> set ls. i < unat (origin l) \<or> unat (origin l) + 8 \<le> i \<Longrightarrow>
   resolve base ls mem ! i = mem ! i"
  unfolding resolve_def
  by (induction ls arbitrary: mem) (simp_all add: put_link_length put_link_nth_other)

lemma resolve_slot:
  assumes "\<forall>l \<in> set ls. unat (origin l) + 8 \<le> length mem"
    and "slots_disjoint ls" and "l \<in> set ls"
  shows "load_u64 (resolve base ls mem) (unat (origin l)) = Some (base + ucast (destination l))"
  using assms
proof (induction ls arbitrary: mem)
  case Nil
  then show ?case by simp
next
  case (Cons x xs)
  have inx: "unat (origin x) + 8 \<le> length mem"
    using Cons.prems(1) by simp
  have rng: "\<forall>l \<in> set xs. unat (origin l) + 8 \<le> length (put_link base x mem)"
    using Cons.prems(1) by (simp add: put_link_length [OF inx])
  have dis: "slots_disjoint xs"
    using Cons.prems(2) by simp
  have step: "resolve base (x # xs) mem = resolve base xs (put_link base x mem)"
    by (simp add: resolve_def)
  show ?case
  proof (cases "l \<in> set xs")
    case True
    from Cons.IH [OF rng dis True] show ?thesis
      by (simp add: step)
  next
    case False
    then have lx: "l = x" using Cons.prems(3) by simp
    have "\<forall>l' \<in> set xs. unat (origin x) + 8 \<le> unat (origin l')
        \<or> unat (origin l') + 8 \<le> unat (origin x)"
      using Cons.prems(2) by simp
    then have "load 8 (resolve base xs (put_link base x mem)) (unat (origin x))
        = load 8 (put_link base x mem) (unat (origin x))"
      using rng by (intro resolve_load_other) auto
    then show ?thesis
      using put_link_load_same [OF inx, of base] by (simp add: step lx load_u64_def)
  qed
qed

lemma unat_of_nat_32: "n \<le> 2147483647 \<Longrightarrow> unat (of_nat n :: 32 word) = n"
  by (simp add: unat_of_nat)

lemma unat_of_nat_64: "n \<le> 2147483647 \<Longrightarrow> unat (of_nat n :: 64 word) = n"
  by (simp add: unat_of_nat)

lemma unat_ucast_32_64: "unat (ucast (w :: 32 word) :: 64 word) = unat w"
  by transfer (simp add: take_bit_nat_eq_self_iff nat_take_bit_eq)

lemma reader_Build:
  assumes nl: "\<not> linked b" and sz: "32 \<le> sz" "sz \<le> length (data b)"
    and so: "load_u32 (data b) off_start_offset = Some (of_nat sz)"
    and lk: "\<forall>l \<in> set (links b). sz \<le> unat (origin l)
               \<and> unat (origin l) + 8 \<le> length (data b)
               \<and> unat (destination l) \<le> length (data b)"
    and cnt: "length (links b) < 65536"
    and cap: "length (data b) + 8 * length (links b) \<le> 2147483647"
  shows "WriteToFile True b = (Inr (data (snd (Build b))), snd (Build b))"
    and "DBFileReader_path base (Some (data (snd (Build b))))
           = (Inr (), resolve base (links b) (data (snd (Build b))))"
proof -
  define fl where "fl = data (snd (Build b))"
  define F where "F = length (data b) + 8 * length (links b)"
  define T where "T = length (data b)"
  have len28: "28 \<le> length (data b)"
    using sz by simp
  note B = Build_success [OF nl len28 so cap]
  have Beq: "Build b = (Inr (), snd (Build b))"
    using B(1) by (simp add: prod_eq_iff)
  have flen: "length fl = F"
    by (simp add: fl_def F_def B(5))
  have hv: "header_view fl = Some
          \<lparr>magic = DB_FILE_MAGIC, version = DB_FILE_CURR_VERSION,
           flags = the (load_u8 (data b) off_flags),
           links_count = of_nat (length (links b)),
           links_table_offset = of_nat T,
           start_offset = of_nat sz,
           data_size = ucast ((of_nat T :: 64 word) - ucast (of_nat sz :: 32 word)),
           file_size = of_nat F\<rparr>"
    using B(7) by (simp add: fl_def F_def T_def)
  note H = header_view_SomeD [OF hv]
  have Fle: "F \<le> 2147483647" "T \<le> F" "T \<le> 2147483647" "sz \<le> F" "32 \<le> F"
    "sz \<le> 2147483647"
    using cap sz by (simp_all add: F_def T_def)
  have uF: "unat (of_nat F :: 32 word) = F" "unat (of_nat T :: 32 word) = T"
    "unat (of_nat sz :: 32 word) = sz" "unat (of_nat F :: 64 word) = F"
    using Fle by (simp_all add: unat_of_nat_32 unat_of_nat_64)
  show "WriteToFile True b = (Inr (data (snd (Build b))), snd (Build b))"
    using H(8) uF(1) flen
    by (subst WriteToFile_def, subst Beq) (simp add: fl_def [symmetric])
  have chk: "\<not> (of_nat F :: 64 word) < 32"
    "\<not> ucast (of_nat F :: 32 word) > (of_nat F :: 64 word)"
    "\<not> (of_nat sz :: 32 word) > of_nat F"
    using uF Fle by (simp_all add: word_less_nat_alt unat_ucast_32_64)
  have v: "ValidateAndLink base (of_nat F) fl = link_loop base T 0 fl"
    using chk uF(2)
    by (simp add: ValidateAndLink_header [OF hv] DB_FILE_MIN_VERSION_def
        DB_FILE_CURR_VERSION_def LINKING_def)
  have dropT: "drop T fl = concat (map link_bytes (links b))"
  proof -
    have "drop T fl = drop (T - 28) (drop 28 fl)"
      using len28 by (simp add: T_def)
    also have "\<dots> = drop T (data b @ concat (map link_bytes (links b)))"
      using len28 B(6) by (simp add: fl_def T_def)
    finally show ?thesis by (simp add: T_def)
  qed
  have lk': "\<forall>l \<in> set (links b). 28 \<le> unat (origin l) \<and> unat (origin l) + 8 \<le> T
       \<and> origin l \<le> of_nat F \<and> destination l \<le> of_nat F"
    using lk sz Fle by (auto simp: word_le_nat_alt uF T_def)
  have "link_loop base T 0 fl = (Inr (), resolve base (drop 0 (links b)) fl)"
    using H(4,8) Fle(2) flen
    by (intro link_loop_resolve [OF refl cnt lk' _ dropT]) simp_all
  then show "DBFileReader_path base (Some (data (snd (Build b))))
           = (Inr (), resolve base (links b) (data (snd (Build b))))"
    using v by (simp add: DBFileReader_path_def fl_def [symmetric] flen)
qed

subsection \<open>What holds in every session\<close>

lemma unat_ucast_64_32:
  assumes "unat (x :: 64 word) \<le> 2147483647"
  shows "unat (ucast x :: 32 word) = unat x"
proof -
  have "(ucast x :: 32 word) = of_nat (unat x)"
    using ucast_of_nat_64_32 [of "unat x"] by simp
  then show ?thesis
    using assms by (simp only: unat_of_nat_32)
qed

lemma unat_size_t_add:
  assumes "unat (x :: 64 word) \<le> 2147483647" and "unat (y :: 64 word) \<le> 2147483647"
  shows "unat (x + y) = unat x + unat y"
  using assms by (simp add: unat_word_ariths)

lemma unat_u32_add:
  assumes "unat (x :: 32 word) + unat (y :: 32 word) \<le> 2147483647"
  shows "unat (x + y) = unat x + unat y"
  using assms by (simp add: unat_word_ariths)


lemma session_invariant:
  assumes "session sz b" and "20 \<le> sz" and "sz \<le> 2147483647"
  shows "\<not> linked b \<and> sz \<le> length (data b) \<and> length (data b) \<le> 2147483647
         \<and> load_u32 (data b) off_start_offset = Some (of_nat sz)
         \<and> (\<forall>k s. blocks b k = Some s \<longrightarrow> sz \<le> unat k \<and> unat k + unat s \<le> length (data b))
         \<and> (\<forall>l \<in> set (links b). sz \<le> unat (origin l)
               \<and> unat (origin l) + 8 \<le> length (data b)
               \<and> unat (destination l) \<le> length (data b))"
  using assms
proof (induction rule: session.induct)
  case (session_new b)
  then have "b = snd (DBFileBuilder sz)" by simp
  then show ?case
    using DBFileBuilder_success [of sz] session_new.prems by simp
next
  case (session_block b len DEBUG buffer bid b')
  note inv = session_block.IH [OF session_block.prems]
  define n where "n = length (data b)"
  have un: "unat (of_nat n :: 64 word) = n"
    using inv by (simp add: n_def unat_of_nat_64)
  have ul: "unat len \<le> 2147483647"
    using session_block.hyps(2) by (simp add: INT32_MAX_def word_le_nat_alt)
  show ?case
  proof (cases "len = 0")
    case True
    then have "b' = b\<lparr>linked := False\<rparr>"
      using session_block.hyps(3) inv by (simp add: CreateBlock_def AssertNotLinked_def)
    then show ?thesis using inv by simp
  next
    case False
    then have ok: "\<not> (of_nat n :: 64 word) + len > INT32_MAX" "\<not> length buffer < unat len"
      and b': "b' = b\<lparr>linked := False, data := data b @ take (unat len) buffer,
                  blocks := (blocks b)(ucast (of_nat n :: 64 word) \<mapsto> ucast len)\<rparr>"
      using session_block.hyps(3) inv
      by (auto simp: CreateBlock_def AssertNotLinked_def n_def Let_def split: if_splits)
    have sum: "n + unat len \<le> 2147483647"
      using ok(1) unat_size_t_add [of "of_nat n" len] un ul inv
      by (simp add: INT32_MAX_def word_less_nat_alt n_def)
    have key: "unat (ucast (of_nat n :: 64 word) :: 32 word) = n"
      "unat (ucast len :: 32 word) = unat len"
      using un ul inv by (simp_all add: unat_ucast_64_32 n_def)
    have ld: "load_u32 (data b @ take (unat len) buffer) off_start_offset
        = load_u32 (data b) off_start_offset"
      using inv session_block.prems by (simp add: load_u32_def load_append_left offs)
    have mono: "\<forall>k s. blocks b k = Some s \<longrightarrow>
          sz \<le> unat k \<and> unat k + unat s \<le> length (data b) + unat len"
      "\<forall>l \<in> set (links b). sz \<le> unat (origin l)
          \<and> unat (origin l) + 8 \<le> length (data b) + unat len
          \<and> unat (destination l) \<le> length (data b) + unat len"
      using inv by (auto intro: trans_le_add1)
    show ?thesis
      using inv sum [unfolded n_def] ok(2) key [unfolded n_def] ld mono
      by (simp add: b' [unfolded n_def] min_def)
  qed
next
  case (session_block_in_place b len DEBUG bid b')
  note inv = session_block_in_place.IH [OF session_block_in_place.prems]
  define n where "n = length (data b)"
  have un: "unat (of_nat n :: 64 word) = n"
    using inv by (simp add: n_def unat_of_nat_64)
  have ul: "unat len \<le> 2147483647"
    using session_block_in_place.hyps(2) by (simp add: INT32_MAX_def word_le_nat_alt)
  show ?case
  proof (cases "len = 0")
    case True
    then have "b' = b\<lparr>linked := False\<rparr>"
      using session_block_in_place.hyps(3) inv
      by (simp add: CreateBlockInPlace_def AssertNotLinked_def)
    then show ?thesis using inv by simp
  next
    case False
    then have ok: "\<not> (of_nat n :: 64 word) + len > INT32_MAX"
      and b': "b' = b\<lparr>linked := False,
                  data := resize (data b) (unat ((of_nat n :: 64 word) + len)),
                  blocks := (blocks b)(ucast (of_nat n :: 64 word) \<mapsto> ucast len)\<rparr>"
      using session_block_in_place.hyps(3) inv
      by (auto simp: CreateBlockInPlace_def AssertNotLinked_def n_def Let_def split: if_splits)
    have add: "unat ((of_nat n :: 64 word) + len) = n + unat len"
      using unat_size_t_add [of "of_nat n" len] un ul inv by (simp add: n_def)
    have sum: "n + unat len \<le> 2147483647"
      using ok add by (simp add: INT32_MAX_def word_less_nat_alt)
    have key: "unat (ucast (of_nat n :: 64 word) :: 32 word) = n"
      "unat (ucast len :: 32 word) = unat len"
      using un ul inv by (simp_all add: unat_ucast_64_32 n_def)
    have rs: "resize (data b) (n + unat len) = data b @ replicate (unat len) 0"
      by (simp add: resize_grow n_def)
    have ld: "load_u32 (data b @ replicate (unat len) 0) off_start_offset
        = load_u32 (data b) off_start_offset"
      using inv session_block_in_place.prems by (simp add: load_u32_def load_append_left offs)
    have mono: "\<forall>k s. blocks b k = Some s \<longrightarrow>
          sz \<le> unat k \<and> unat k + unat s \<le> length (data b) + unat len"
      "\<forall>l \<in> set (links b). sz \<le> unat (origin l)
          \<and> unat (origin l) + 8 \<le> length (data b) + unat len
          \<and> unat (destination l) \<le> length (data b) + unat len"
      using inv by (auto intro: trans_le_add1)
    show ?thesis
      using inv sum [unfolded n_def] key [unfolded n_def] ld mono
      by (simp add: b' [unfolded n_def] add [unfolded n_def] rs [unfolded n_def])
  qed
next
  case (session_write b off bs d)
  note inv = session_write.IH [OF session_write.prems]
  have "load 4 d off_start_offset = load 4 (data b) off_start_offset"
    using session_write.hyps(2) session_write.prems
    by (intro load_store_other [OF session_write.hyps(3)]) (simp add: offs)
  then show ?case
    using inv store_length [OF session_write.hyps(3)] by (simp add: load_u32_def)
next
  case (session_link b orig blockOrigin blockDestination DEBUG dest b')
  note inv = session_link.IH [OF session_link.prems]
  define l where "l = \<lparr>origin = blockOrigin + orig, destination = blockDestination + dest\<rparr>"
  have ok: "\<not> dest > GetBlockSize b blockDestination"
    and b': "b' = b\<lparr>linked := False, links := links b @ [l]\<rparr>"
    using session_link.hyps(4) inv
    by (auto simp: CreateLink_def AssertNotLinked_def GetBlockSize_def l_def Let_def
        split: if_splits)
  obtain s where s: "blocks b blockOrigin = Some s" "unat orig + 8 \<le> unat s"
    using session_link.hyps(2) by (auto simp: GetBlockSize_def split: option.splits)
  with inv have bo: "sz \<le> unat blockOrigin" "unat blockOrigin + unat s \<le> length (data b)"
    by auto
  have "unat (blockOrigin + orig) = unat blockOrigin + unat orig"
    using bo s(2) inv by (intro unat_u32_add) simp
  then have o: "sz \<le> unat (origin l)" "unat (origin l) + 8 \<le> length (data b)"
    using bo s(2) by (simp_all add: l_def)
  have dle: "unat dest \<le> unat (GetBlockSize b blockDestination)"
    using ok by (simp add: word_less_nat_alt)
  have "unat blockDestination + unat dest \<le> length (data b)"
  proof (cases "blocks b blockDestination")
    case None
    then show ?thesis
      using dle session_link.hyps(3) by (simp add: GetBlockSize_def)
  next
    case (Some t)
    with inv have "unat blockDestination + unat t \<le> length (data b)" by auto
    then show ?thesis using dle Some by (simp add: GetBlockSize_def)
  qed
  moreover from this have "unat (blockDestination + dest) = unat blockDestination + unat dest"
    using inv by (intro unat_u32_add) simp
  ultimately have "unat (destination l) \<le> length (data b)"
    by (simp add: l_def)
  then show ?case
    using inv o by (simp add: b')
qed

subsection \<open>Round trip\<close>

lemma builder_one_link_facts:
  "fst (CreateLink False 112 0 112 8 builder16) = Inr ()"
  "\<not> linked builder_one_link" "data builder_one_link = data builder16"
  "links builder_one_link = [\<lparr>origin = 112, destination = 120\<rparr>]"
  by (simp_all add: builder_one_link_def CreateLink_def AssertNotLinked_def GetBlockSize_def
      builder16_facts)

lemma builder_two_links_facts:
  "fst (CreateLink False 112 0 112 0 builder16) = Inr ()"
  "fst (CreateLink False 112 0 112 8 (snd (CreateLink False 112 0 112 0 builder16))) = Inr ()"
  "\<not> linked builder_two_links" "data builder_two_links = data builder16"
  "links builder_two_links
     = [\<lparr>origin = 112, destination = 112\<rparr>, \<lparr>origin = 112, destination = 120\<rparr>]"
  by (simp_all add: builder_two_links_def CreateLink_def AssertNotLinked_def GetBlockSize_def
      builder16_facts)

lemma session_builder16: "session 112 builder16"
proof -
  have "DBFileBuilder 112 = (Inr (), builder0)"
    using DBFileBuilder_success(1) [of 112] by (simp add: builder0_def prod_eq_iff)
  then have "session 112 builder0"
    by (rule session_new)
  moreover have "(16 :: 64 word) \<le> INT32_MAX"
    by (simp add: INT32_MAX_def)
  moreover have "CreateBlockInPlace False 16 builder0 = (Inr 112, builder16)"
    by (simp add: builder16_def prod_eq_iff CreateBlockInPlace_def AssertNotLinked_def
        builder0_facts INT32_MAX_def)
  ultimately show ?thesis
    by (rule session_block_in_place)
qed

lemma session_builder_one_link: "session 112 builder_one_link"
proof (rule session_link [OF session_builder16])
  show "unat (0 :: 32 word) + 8 \<le> unat (GetBlockSize builder16 112)"
    by (simp add: GetBlockSize_def builder16_facts)
  show "unat (112 :: 32 word) \<le> length (data builder16)"
    by (simp add: builder16_facts)
  show "CreateLink False 112 0 112 8 builder16 = (Inr (), builder_one_link)"
    using builder_one_link_facts(1) by (simp add: builder_one_link_def prod_eq_iff)
qed

text \<open>
  C1, for disjoint slots. Take a session in which the slots of the links are pairwise disjoint
  and there are fewer than 65536 links, with \<^verbatim>\<open>sizeof(DBFileBuilder)\<close> at least 32
  and a buffer that stays within the cap once the link table is appended. Then
  \<open>WriteToFile\<close> succeeds, the reader accepts the file it wrote, the 8-byte slot at the
  origin of every link holds \<open>base + destination\<close>, and every payload byte outside
  the slots is the byte the builder holds.
\<close>

theorem round_trip:
  assumes "session sz b" and "32 \<le> sz" and "sz \<le> 2147483647"
    and "length (links b) < 65536"
    and "slots_disjoint (links b)"
    and "length (data b) + 8 * length (links b) \<le> 2147483647"
  shows "\<exists>fl mem'.
           WriteToFile True b = (Inr fl, snd (Build b))
         \<and> DBFileReader_path base (Some fl) = (Inr (), mem')
         \<and> length mem' = length fl
         \<and> (\<forall>l \<in> set (links b).
               load_u64 mem' (unat (origin l)) = Some (base + ucast (destination l)))
         \<and> (\<forall>i. sz \<le> i \<and> i < length (data b)
                  \<and> (\<forall>l \<in> set (links b). i < unat (origin l) \<or> unat (origin l) + 8 \<le> i)
                \<longrightarrow> mem' ! i = data b ! i)"
proof -
  have sz20: "20 \<le> sz" using assms(2) by simp
  note inv = session_invariant [OF assms(1) sz20 assms(3)]
  from inv have nl: "\<not> linked b" and szl: "sz \<le> length (data b)"
    and so: "load_u32 (data b) off_start_offset = Some (of_nat sz)"
    and lk: "\<forall>l \<in> set (links b). sz \<le> unat (origin l)
               \<and> unat (origin l) + 8 \<le> length (data b)
               \<and> unat (destination l) \<le> length (data b)"
    by simp_all
  define fl where "fl = data (snd (Build b))"
  define mem' where "mem' = resolve base (links b) fl"
  note R = reader_Build(1) [OF nl assms(2) szl so lk assms(4) assms(6), folded fl_def]
    reader_Build(2) [OF nl assms(2) szl so lk assms(4) assms(6), of base,
      folded fl_def mem'_def]
  have len28: "28 \<le> length (data b)"
    using assms(2) szl by simp
  note B = Build_success [OF nl len28 so assms(6), folded fl_def]
  have rng: "\<forall>l \<in> set (links b). unat (origin l) + 8 \<le> length fl"
    using lk B(5) by auto
  have "length mem' = length fl"
    unfolding mem'_def by (rule resolve_length [OF rng])
  moreover have "\<forall>l \<in> set (links b).
      load_u64 mem' (unat (origin l)) = Some (base + ucast (destination l))"
    unfolding mem'_def using resolve_slot [OF rng assms(5)] by blast
  moreover have "mem' ! i = data b ! i"
    if i: "sz \<le> i" "i < length (data b)"
      and out: "\<forall>l \<in> set (links b). i < unat (origin l) \<or> unat (origin l) + 8 \<le> i" for i
  proof -
    have "mem' ! i = fl ! i"
      unfolding mem'_def by (rule resolve_nth_other [OF rng out])
    also have "\<dots> = drop 28 fl ! (i - 28)"
      using i assms(2) B(5) by simp
    also have "\<dots> = drop 28 (data b @ concat (map link_bytes (links b))) ! (i - 28)"
      by (simp only: B(6))
    also have "\<dots> = (data b @ concat (map link_bytes (links b))) ! (28 + (i - 28))"
      using len28 by (intro nth_drop) simp
    also have "\<dots> = data b ! i"
      using i assms(2) by (simp add: nth_append)
    finally show ?thesis .
  qed
  ultimately show ?thesis
    using R by blast
qed

theorem round_trip_witness:
  "session 112 builder_one_link \<and> (32 :: nat) \<le> 112 \<and> (112 :: nat) \<le> 2147483647
   \<and> length (links builder_one_link) < 65536
   \<and> slots_disjoint (links builder_one_link)
   \<and> length (data builder_one_link) + 8 * length (links builder_one_link) \<le> 2147483647
   \<and> (\<exists>fl mem'.
           WriteToFile True builder_one_link = (Inr fl, snd (Build builder_one_link))
         \<and> DBFileReader_path 0x1000 (Some fl) = (Inr (), mem')
         \<and> length mem' = length fl
         \<and> (\<forall>l \<in> set (links builder_one_link).
               load_u64 mem' (unat (origin l)) = Some (0x1000 + ucast (destination l)))
         \<and> (\<forall>i. 112 \<le> i \<and> i < length (data builder_one_link)
                  \<and> (\<forall>l \<in> set (links builder_one_link).
                        i < unat (origin l) \<or> unat (origin l) + 8 \<le> i)
                \<longrightarrow> mem' ! i = data builder_one_link ! i))"
proof -
  have h: "(32 :: nat) \<le> 112" "(112 :: nat) \<le> 2147483647"
    "length (links builder_one_link) < 65536"
    "slots_disjoint (links builder_one_link)"
    "length (data builder_one_link) + 8 * length (links builder_one_link) \<le> 2147483647"
    by (simp_all add: builder_one_link_facts builder16_facts)
  from round_trip [OF session_builder_one_link h, of "0x1000"] session_builder_one_link h
  show ?thesis by blast
qed

text \<open>
  C1 does not hold where two links share a slot: both calls of \<open>CreateLink\<close> pass
  the bounds check, the reader accepts the file, and the slot at 112 holds the address
  of the second destination, \<open>base + 120\<close>, not \<open>base + 112\<close> as the first link asks.
\<close>

theorem same_slot_counterexample:
  "fst (CreateLink False 112 0 112 0 builder16) = Inr ()
   \<and> fst (CreateLink False 112 0 112 8 (snd (CreateLink False 112 0 112 0 builder16))) = Inr ()
   \<and> links builder_two_links
       = [\<lparr>origin = 112, destination = 112\<rparr>, \<lparr>origin = 112, destination = 120\<rparr>]
   \<and> fst (WriteToFile True builder_two_links) = Inr (data (snd (Build builder_two_links)))
   \<and> fst (DBFileReader_path 0x1000 (Some (data (snd (Build builder_two_links))))) = Inr ()
   \<and> load_u64 (snd (DBFileReader_path 0x1000 (Some (data (snd (Build builder_two_links))))))
        (unat (112 :: 32 word)) = Some (0x1000 + ucast (120 :: 32 word))
   \<and> load_u64 (snd (DBFileReader_path 0x1000 (Some (data (snd (Build builder_two_links))))))
        (unat (112 :: 32 word)) \<noteq> Some (0x1000 + ucast (112 :: 32 word))"
proof -
  define fl where "fl = data (snd (Build builder_two_links))"
  define l1 :: DB_FILE_LINK where "l1 = \<lparr>origin = 112, destination = 112\<rparr>"
  define l2 :: DB_FILE_LINK where "l2 = \<lparr>origin = 112, destination = 120\<rparr>"
  have lk: "links builder_two_links = [l1, l2]"
    by (simp add: builder_two_links_facts l1_def l2_def)
  have R: "WriteToFile True builder_two_links = (Inr fl, snd (Build builder_two_links))"
    "DBFileReader_path 0x1000 (Some fl) = (Inr (), resolve 0x1000 [l1, l2] fl)"
    unfolding fl_def lk [symmetric]
    by (rule reader_Build [where sz = 112];
        simp add: builder_two_links_facts builder16_facts)+
  have len: "length fl = 144"
    using Build_success(5) [of builder_two_links 112]
    by (simp add: fl_def builder_two_links_facts builder16_facts)
  have "resolve 0x1000 [l1, l2] fl = put_link 0x1000 l2 (put_link 0x1000 l1 fl)"
    by (simp add: resolve_def)
  moreover have "unat (origin l2) + 8 \<le> length (put_link 0x1000 l1 fl)"
    by (simp add: put_link_length l1_def l2_def len)
  ultimately have "load_u64 (resolve 0x1000 [l1, l2] fl) (unat (origin l2))
      = Some (0x1000 + ucast (destination l2))"
    by (simp only: put_link_load_same)
  then have "load_u64 (resolve 0x1000 [l1, l2] fl) 112 = Some (0x1000 + 120)"
    by (simp add: l2_def)
  then show ?thesis
    using R builder_two_links_facts by (simp add: fl_def [symmetric])
qed

end
